theory Spec2Isabelle
  imports Complex_Main "HOL-Library.Log_Nat"
begin

section \<open>The Gibson-Lanni PSF generator (generate\_movie/microscPSF.py)\<close>

text \<open>
  A shallow embedding of the functions of \<^verbatim>\<open>microscPSF.py\<close>, at two levels of
  arithmetic. In the first, numbers the caller supplies (the entries of the parameter
  dictionary, wavelengths, pixel sizes, the entries of the input arrays) are reals and the
  operations are exact; values computed by numpy array arithmetic may be infinite or NaN
  and are values of the type \<open>fval\<close>. It is the model of the formulas, the shapes, the
  exceptions and the effects on the store. In the second (section Binary64 arithmetic),
  \<^verbatim>\<open>OPD\<close> and \<^verbatim>\<open>calcRv\<close> are given with every operation rounded to binary64, as the
  source computes; it is the model of the statements that depend on exact values. Python
  exceptions are values of \<open>py_error\<close>.
\<close>

subsection \<open>Exceptions\<close>

datatype py_error = KeyError | ZeroDivisionError | ValueError | LinAlgError

definition bindE :: "'e + 'a \<Rightarrow> ('a \<Rightarrow> 'e + 'b) \<Rightarrow> 'e + 'b" where
  "bindE m f = (case m of Inl e \<Rightarrow> Inl e | Inr x \<Rightarrow> f x)"

text \<open>Python scalar division \<^verbatim>\<open>x / y\<close> on floats raises on a zero divisor.\<close>

definition py_div :: "real \<Rightarrow> real \<Rightarrow> py_error + real" where
  "py_div x y = (if y = 0 then Inl ZeroDivisionError else Inr (x / y))"

text \<open>\<^verbatim>\<open>math.sqrt\<close> raises ValueError (math domain error) on a negative argument.\<close>

definition math_sqrt :: "real \<Rightarrow> py_error + real" where
  "math_sqrt x = (if x < 0 then Inl ValueError else Inr (sqrt x))"

subsection \<open>Array elements: finite, infinite, NaN\<close>

datatype fval = Fin real | PInf | NInf | NaN

fun fneg :: "fval \<Rightarrow> fval" where
  "fneg (Fin x) = Fin (- x)"
| "fneg PInf = NInf"
| "fneg NInf = PInf"
| "fneg NaN = NaN"

fun fadd :: "fval \<Rightarrow> fval \<Rightarrow> fval" where
  "fadd (Fin x) (Fin y) = Fin (x + y)"
| "fadd NaN _ = NaN"
| "fadd _ NaN = NaN"
| "fadd PInf NInf = NaN"
| "fadd NInf PInf = NaN"
| "fadd PInf _ = PInf"
| "fadd _ PInf = PInf"
| "fadd NInf _ = NInf"
| "fadd _ NInf = NInf"

definition fsub :: "fval \<Rightarrow> fval \<Rightarrow> fval" where
  "fsub a b = fadd a (fneg b)"

text \<open>The sign of an infinite product or quotient; zero times infinity is NaN.\<close>

definition finf :: "bool \<Rightarrow> fval" where
  "finf positive = (if positive then PInf else NInf)"

fun fmul :: "fval \<Rightarrow> fval \<Rightarrow> fval" where
  "fmul (Fin x) (Fin y) = Fin (x * y)"
| "fmul NaN _ = NaN"
| "fmul _ NaN = NaN"
| "fmul (Fin x) PInf = (if x = 0 then NaN else finf (0 < x))"
| "fmul (Fin x) NInf = (if x = 0 then NaN else finf (x < 0))"
| "fmul PInf (Fin y) = (if y = 0 then NaN else finf (0 < y))"
| "fmul NInf (Fin y) = (if y = 0 then NaN else finf (y < 0))"
| "fmul PInf PInf = PInf"
| "fmul NInf NInf = PInf"
| "fmul PInf NInf = NInf"
| "fmul NInf PInf = NInf"

text \<open>
  numpy's true division: a zero divisor gives NaN for a zero dividend and an infinity
  otherwise, with a warning and no exception. Signed zeros are not modelled: a zero
  divisor counts as positive.
\<close>

fun fdiv :: "fval \<Rightarrow> fval \<Rightarrow> fval" where
  "fdiv (Fin x) (Fin y) =
     (if y = 0 then (if x = 0 then NaN else finf (0 < x)) else Fin (x / y))"
| "fdiv NaN _ = NaN"
| "fdiv _ NaN = NaN"
| "fdiv (Fin x) PInf = Fin 0"
| "fdiv (Fin x) NInf = Fin 0"
| "fdiv PInf (Fin y) = finf (0 \<le> y)"
| "fdiv NInf (Fin y) = finf (y < 0)"
| "fdiv PInf PInf = NaN"
| "fdiv PInf NInf = NaN"
| "fdiv NInf PInf = NaN"
| "fdiv NInf NInf = NaN"

text \<open>\<^verbatim>\<open>numpy.sqrt\<close>: NaN (and a warning) on a negative argument.\<close>

fun fsqrt :: "fval \<Rightarrow> fval" where
  "fsqrt (Fin x) = (if x < 0 then NaN else Fin (sqrt x))"
| "fsqrt PInf = PInf"
| "fsqrt NInf = NaN"
| "fsqrt NaN = NaN"

fun is_fin :: "fval \<Rightarrow> bool" where
  "is_fin (Fin x) = True"
| "is_fin _ = False"

subsection \<open>The parameter dictionary\<close>

type_synonym mparams = "string \<rightharpoonup> real"

definition getp :: "mparams \<Rightarrow> string \<Rightarrow> py_error + real" where
  "getp mp key = (case mp key of None \<Rightarrow> Inl KeyError | Some v \<Rightarrow> Inr v)"

subsection \<open>Internal constants\<close>

definition num_basis :: nat where
  "num_basis = 100"

definition rho_samples :: nat where
  "rho_samples = 1000"

subsection \<open>calcRv\<close>

text \<open>
  \<^verbatim>\<open>numpy.arange(start, stop, step)\<close> has \<open>ceil((stop - start) / step)\<close> elements
  \<open>start + i * step\<close>; a zero step raises.
\<close>

definition arange :: "real \<Rightarrow> real \<Rightarrow> real \<Rightarrow> py_error + real list" where
  "arange start stop step =
     (if step = 0 then Inl ZeroDivisionError
      else Inr (map (\<lambda>i. start + real i * step)
                  [0 ..< nat \<lceil>(stop - start) / step\<rceil>]))"

definition calcRv :: "real \<Rightarrow> int \<Rightarrow> int \<Rightarrow> py_error + real list" where
  "calcRv dxy xy_size sampling =
     bindE (math_sqrt (0.5 * real_of_int xy_size * real_of_int xy_size)) (\<lambda>s.
       let rv_max = s + 1 in
       bindE (py_div dxy (real_of_int sampling)) (\<lambda>step.
         arange 0 (rv_max * dxy) step))"

subsection \<open>configure\<close>

definition min_list_py :: "real list \<Rightarrow> real" where
  "min_list_py xs = foldl min (hd xs) (tl xs)"

definition configure :: "mparams \<Rightarrow> real \<Rightarrow> py_error + (fval list \<times> real)" where
  "configure mp wvl =
     (let min_wavelength = 0.436 in
      bindE (getp mp ''NA'') (\<lambda>NA.
        let scaling_factor =
              map (\<lambda>m. fdiv (Fin (NA * real_of_int (3 * int m - 2) * min_wavelength)) (Fin wvl))
                [1 ..< num_basis + 1] in
        bindE (getp mp ''NA'') (\<lambda>NA1.
        bindE (getp mp ''ng0'') (\<lambda>ng0.
        bindE (getp mp ''ng'') (\<lambda>ng.
        bindE (getp mp ''ni0'') (\<lambda>ni0.
        bindE (getp mp ''ni'') (\<lambda>ni.
        bindE (getp mp ''ns'') (\<lambda>ns.
        bindE (getp mp ''NA'') (\<lambda>NA2.
        bindE (py_div (min_list_py [NA1, ng0, ng, ni0, ni, ns]) NA2) (\<lambda>max_rho.
          Inr (scaling_factor, max_rho)))))))))))"

subsection \<open>OPD\<close>

text \<open>
  The constants \<^verbatim>\<open>OPD\<close> reads from the dictionary, in the order the source
  reads them, then the aperture radius \<open>a\<close> and the wave number \<open>k\<close>, both Python
  scalar divisions.
\<close>

record opd_env =
  e_NA :: real
  e_ns :: real
  e_ng0 :: real
  e_ng :: real
  e_ni0 :: real
  e_ni :: real
  e_ti0 :: real
  e_tg :: real
  e_tg0 :: real
  e_zd0 :: real
  e_a :: real
  e_k :: real

definition OPD_env :: "mparams \<Rightarrow> real \<Rightarrow> py_error + opd_env" where
  "OPD_env mp wvl =
     bindE (getp mp ''NA'') (\<lambda>NA.
     bindE (getp mp ''ns'') (\<lambda>ns.
     bindE (getp mp ''ng0'') (\<lambda>ng0.
     bindE (getp mp ''ng'') (\<lambda>ng.
     bindE (getp mp ''ni0'') (\<lambda>ni0.
     bindE (getp mp ''ni'') (\<lambda>ni.
     bindE (getp mp ''ti0'') (\<lambda>ti0.
     bindE (getp mp ''tg'') (\<lambda>tg.
     bindE (getp mp ''tg0'') (\<lambda>tg0.
     bindE (getp mp ''zd0'') (\<lambda>zd0.
     bindE (getp mp ''M'') (\<lambda>M.
     bindE (py_div (NA * zd0) M) (\<lambda>a.
     bindE (py_div (2 * pi) wvl) (\<lambda>k.
       Inr \<lparr>e_NA = NA, e_ns = ns, e_ng0 = ng0, e_ng = ng, e_ni0 = ni0, e_ni = ni,
            e_ti0 = ti0, e_tg = tg, e_tg0 = tg0, e_zd0 = zd0, e_a = a, e_k = k\<rparr>
     )))))))))))))"

text \<open>The four path differences at one pupil radius \<open>rho\<close>, as the source names them.\<close>

definition OPDs :: "opd_env \<Rightarrow> real \<Rightarrow> real \<Rightarrow> fval" where
  "OPDs e pz rho =
     fmul (Fin pz) (fsqrt (Fin (e_ns e * e_ns e - e_NA e * e_NA e * rho * rho)))"

definition OPDi :: "opd_env \<Rightarrow> real \<Rightarrow> real \<Rightarrow> fval" where
  "OPDi e ti rho =
     fsub (fmul (Fin ti) (fsqrt (Fin (e_ni e * e_ni e - e_NA e * e_NA e * rho * rho))))
          (fmul (Fin (e_ti0 e)) (fsqrt (Fin (e_ni0 e * e_ni0 e - e_NA e * e_NA e * rho * rho))))"

definition OPDg :: "opd_env \<Rightarrow> real \<Rightarrow> fval" where
  "OPDg e rho =
     fsub (fmul (Fin (e_tg e)) (fsqrt (Fin (e_ng e * e_ng e - e_NA e * e_NA e * rho * rho))))
          (fmul (Fin (e_tg0 e)) (fsqrt (Fin (e_ng0 e * e_ng0 e - e_NA e * e_NA e * rho * rho))))"

definition OPDt :: "opd_env \<Rightarrow> real \<Rightarrow> real \<Rightarrow> fval" where
  "OPDt e zd rho =
     fdiv (Fin (e_a e * e_a e * (e_zd0 e - zd) * rho * rho)) (Fin (2 * e_zd0 e * zd))"

definition OPD_elem :: "opd_env \<Rightarrow> real \<Rightarrow> real \<Rightarrow> real \<Rightarrow> real \<Rightarrow> fval" where
  "OPD_elem e ti pz zd rho =
     fmul (Fin (e_k e))
       (fadd (fadd (fadd (OPDs e pz rho) (OPDi e ti rho)) (OPDg e rho)) (OPDt e zd rho))"

text \<open>\<^verbatim>\<open>OPD(mp, rho, ti, pz, wvl, zd)\<close> on an array \<open>rho\<close> and scalars \<open>ti\<close>, \<open>pz\<close>, \<open>zd\<close>.\<close>

definition OPD :: "mparams \<Rightarrow> real list \<Rightarrow> real \<Rightarrow> real \<Rightarrow> real \<Rightarrow> real \<Rightarrow> py_error + fval list" where
  "OPD mp rho ti pz wvl zd =
     bindE (OPD_env mp wvl) (\<lambda>e. Inr (map (OPD_elem e ti pz zd) rho))"

text \<open>
  numpy broadcasting of two axis lengths: equal, or one of them 1; anything else raises
  ValueError. Element \<open>i\<close> of a broadcast column repeats a single entry.
\<close>

definition broadcast :: "nat \<Rightarrow> nat \<Rightarrow> py_error + nat" where
  "broadcast n m =
     (if n = m then Inr n else if n = 1 then Inr m else if m = 1 then Inr n
      else Inl ValueError)"

definition bc :: "'a list \<Rightarrow> nat \<Rightarrow> 'a" where
  "bc xs i = (if length xs = 1 then xs ! 0 else xs ! i)"

text \<open>
  \<^verbatim>\<open>OPD\<close> as \<^verbatim>\<open>gLZRScan\<close> calls it: \<open>ti\<close>, \<open>pz\<close> and \<open>zd\<close> are columns of shape
  \<open>(n, 1)\<close>, broadcast against the row \<open>rho\<close>; the result has one row per axial sample.
\<close>

definition OPD_cols ::
  "mparams \<Rightarrow> real list \<Rightarrow> real list \<Rightarrow> real list \<Rightarrow> real \<Rightarrow> real list \<Rightarrow> py_error + fval list list" where
  "OPD_cols mp rho ti pz wvl zd =
     bindE (OPD_env mp wvl) (\<lambda>e.
     bindE (broadcast (length pz) (length ti)) (\<lambda>n1.
     bindE (broadcast n1 (length zd)) (\<lambda>n.
       Inr (map (\<lambda>i. map (OPD_elem e (bc ti i) (bc pz i) (bc zd i)) rho) [0 ..< n]))))"

text \<open>
  The four terms in the words of the specification, for comparison: each is a function of
  the parameters named in its formula only.
\<close>

definition OPD_sample_spec :: "real \<Rightarrow> real \<Rightarrow> real \<Rightarrow> real \<Rightarrow> fval" where
  "OPD_sample_spec NA ns pz rho = fmul (Fin pz) (fsqrt (Fin (ns\<^sup>2 - NA\<^sup>2 * rho\<^sup>2)))"

definition OPD_immersion_spec :: "real \<Rightarrow> real \<Rightarrow> real \<Rightarrow> real \<Rightarrow> real \<Rightarrow> real \<Rightarrow> fval" where
  "OPD_immersion_spec NA ni ni0 ti0 ti rho =
     fsub (fmul (Fin ti) (fsqrt (Fin (ni\<^sup>2 - NA\<^sup>2 * rho\<^sup>2))))
          (fmul (Fin ti0) (fsqrt (Fin (ni0\<^sup>2 - NA\<^sup>2 * rho\<^sup>2))))"

definition OPD_coverslip_spec :: "real \<Rightarrow> real \<Rightarrow> real \<Rightarrow> real \<Rightarrow> real \<Rightarrow> real \<Rightarrow> fval" where
  "OPD_coverslip_spec NA ng ng0 tg tg0 rho =
     fsub (fmul (Fin tg) (fsqrt (Fin (ng\<^sup>2 - NA\<^sup>2 * rho\<^sup>2))))
          (fmul (Fin tg0) (fsqrt (Fin (ng0\<^sup>2 - NA\<^sup>2 * rho\<^sup>2))))"

definition OPD_defocus_spec :: "real \<Rightarrow> real \<Rightarrow> real \<Rightarrow> real \<Rightarrow> real \<Rightarrow> fval" where
  "OPD_defocus_spec NA M zd0 zd rho =
     (let a = NA * zd0 / M in fdiv (Fin (a\<^sup>2 * (zd0 - zd) * rho\<^sup>2)) (Fin (2 * zd0 * zd)))"

definition OPD_spec ::
  "real \<Rightarrow> real \<Rightarrow> real \<Rightarrow> real \<Rightarrow> real \<Rightarrow> real \<Rightarrow> real \<Rightarrow> real \<Rightarrow> real \<Rightarrow> real \<Rightarrow> real \<Rightarrow>
   real \<Rightarrow> real \<Rightarrow> real \<Rightarrow> real \<Rightarrow> real \<Rightarrow> fval" where
  "OPD_spec NA M ns ng0 ng ni0 ni ti0 tg tg0 zd0 ti pz wvl zd rho =
     fmul (Fin (2 * pi / wvl))
       (fadd (fadd (fadd (OPD_sample_spec NA ns pz rho)
                         (OPD_immersion_spec NA ni ni0 ti0 ti rho))
                   (OPD_coverslip_spec NA ng ng0 tg tg0 rho))
             (OPD_defocus_spec NA M zd0 zd rho))"

text \<open>
  The number of samples \<^verbatim>\<open>calcRv\<close> returns with the default two-fold up-sampling:
  \<open>(rv_max * dxy) / (dxy / 2) = 2 * rv_max\<close>, rounded up.
\<close>

definition rv_len :: "int \<Rightarrow> nat" where
  "rv_len xy_size = nat \<lceil>2 * (sqrt (0.5 * real_of_int xy_size * real_of_int xy_size) + 1)\<rceil>"

subsection \<open>Valid parameter sets\<close>

text \<open>
  Every key the module reads is present (\<open>mp_defined\<close>); the numerical aperture and the
  refractive indices are strictly positive (\<open>valid_mp\<close>).
\<close>

definition mp_keys :: "string list" where
  "mp_keys = [''NA'', ''M'', ''ns'', ''ng0'', ''ng'', ''ni0'', ''ni'', ''ti0'', ''tg'', ''tg0'', ''zd0'']"

definition mp_defined :: "mparams \<Rightarrow> bool" where
  "mp_defined mp = list_all (\<lambda>key. mp key \<noteq> None) mp_keys"

definition valid_mp :: "mparams \<Rightarrow> bool" where
  "valid_mp mp =
     (mp_defined mp \<and>
      list_all (\<lambda>key. 0 < the (mp key)) [''NA'', ''ns'', ''ng0'', ''ng'', ''ni0'', ''ni''])"

text \<open>The representative parameter set of the specification's end-to-end example.\<close>

definition mp_example :: mparams where
  "mp_example =
     [''NA'' \<mapsto> 1.4, ''M'' \<mapsto> 100, ''ns'' \<mapsto> 1.33, ''ng0'' \<mapsto> 1.515, ''ng'' \<mapsto> 1.515,
      ''ni0'' \<mapsto> 1.515, ''ni'' \<mapsto> 1.515, ''ti0'' \<mapsto> 150, ''tg'' \<mapsto> 170, ''tg0'' \<mapsto> 170,
      ''zd0'' \<mapsto> 150000]"

text \<open>The constants \<^verbatim>\<open>OPD\<close> computes when every lookup and both divisions succeed.\<close>

definition env_of :: "mparams \<Rightarrow> real \<Rightarrow> opd_env" where
  "env_of mp wvl =
     \<lparr>e_NA = the (mp ''NA''), e_ns = the (mp ''ns''), e_ng0 = the (mp ''ng0''),
          e_ng = the (mp ''ng''), e_ni0 = the (mp ''ni0''), e_ni = the (mp ''ni''),
          e_ti0 = the (mp ''ti0''), e_tg = the (mp ''tg''), e_tg0 = the (mp ''tg0''),
          e_zd0 = the (mp ''zd0''),
          e_a = the (mp ''NA'') * the (mp ''zd0'') / the (mp ''M''),
          e_k = 2 * pi / wvl\<rparr>"

subsection \<open>Library routines used by gLZRScan\<close>

text \<open>\<^verbatim>\<open>numpy.linspace(start, stop, num)\<close>: \<open>num\<close> evenly spaced samples, both ends included.\<close>

definition linspace :: "real \<Rightarrow> real \<Rightarrow> nat \<Rightarrow> real list" where
  "linspace start stop num =
     map (\<lambda>i. start + real i * ((stop - start) / real (num - 1))) [0 ..< num]"

text \<open>
  \<^verbatim>\<open>scipy.special.j0\<close> and \<^verbatim>\<open>j1\<close>: the Bessel functions of the first kind of order 0
  and 1, by their power series. A NaN or infinite argument gives NaN.
\<close>

definition bessel_j0 :: "real \<Rightarrow> real" where
  "bessel_j0 x = (\<Sum>m. (- 1) ^ m / (fact m * fact m) * (x / 2) ^ (2 * m))"

definition bessel_j1 :: "real \<Rightarrow> real" where
  "bessel_j1 x = (\<Sum>m. (- 1) ^ m / (fact m * fact (Suc m)) * (x / 2) ^ (2 * m + 1))"

fun fJ0 :: "fval \<Rightarrow> fval" where
  "fJ0 (Fin x) = Fin (bessel_j0 x)"
| "fJ0 _ = NaN"

fun fJ1 :: "fval \<Rightarrow> fval" where
  "fJ1 (Fin x) = Fin (bessel_j1 x)"
| "fJ1 _ = NaN"

text \<open>Complex array elements: real and imaginary part.\<close>

type_synonym cval = "fval \<times> fval"

definition cadd :: "cval \<Rightarrow> cval \<Rightarrow> cval" where
  "cadd z w = (fadd (fst z) (fst w), fadd (snd z) (snd w))"

definition cmul :: "cval \<Rightarrow> cval \<Rightarrow> cval" where
  "cmul z w =
     (fsub (fmul (fst z) (fst w)) (fmul (snd z) (snd w)),
      fadd (fmul (fst z) (snd w)) (fmul (snd z) (fst w)))"

text \<open>\<^verbatim>\<open>numpy.exp(1j * x)\<close> for a real \<open>x\<close>; NaN in both parts when \<open>x\<close> is not finite.\<close>

fun cexp_i :: "fval \<Rightarrow> cval" where
  "cexp_i (Fin x) = (Fin (cos x), Fin (sin x))"
| "cexp_i _ = (NaN, NaN)"

text \<open>\<^verbatim>\<open>numpy.abs\<close> of a complex number (\<open>hypot\<close>: infinite as soon as one part is).\<close>

fun cabs :: "cval \<Rightarrow> fval" where
  "cabs (Fin x, Fin y) = Fin (sqrt (x * x + y * y))"
| "cabs (PInf, _) = PInf"
| "cabs (NInf, _) = PInf"
| "cabs (_, PInf) = PInf"
| "cabs (_, NInf) = PInf"
| "cabs (_, _) = NaN"

definition cfin :: "cval \<Rightarrow> bool" where
  "cfin z = (is_fin (fst z) \<and> is_fin (snd z))"

text \<open>
  A matrix is the list of its rows. The transpose of a matrix with \<open>ncol\<close> columns, by
  index, so that a matrix without rows still has \<open>ncol\<close> (empty) rows after transposition.
\<close>

definition transpose_m :: "nat \<Rightarrow> 'a list list \<Rightarrow> 'a list list" where
  "transpose_m ncol A = map (\<lambda>j. map (\<lambda>row. row ! j) A) [0 ..< ncol]"

definition ncols :: "'a list list \<Rightarrow> nat" where
  "ncols A = (case A of [] \<Rightarrow> 0 | row # _ \<Rightarrow> length row)"

text \<open>
  \<^verbatim>\<open>R.dot(C)\<close> for a real \<open>R\<close> with \<open>inner\<close> columns and a complex \<open>C\<close>: ValueError
  unless \<open>C\<close> has \<open>inner\<close> rows. \<open>R\<close> is cast to complex.
\<close>

definition matdot :: "nat \<Rightarrow> fval list list \<Rightarrow> cval list list \<Rightarrow> py_error + cval list list" where
  "matdot inner R C =
     (if length C \<noteq> inner then Inl ValueError
      else Inr (map (\<lambda>row.
                  map (\<lambda>i. foldl cadd (Fin 0, Fin 0)
                             (map2 (\<lambda>r crow. cmul (r, Fin 0) (crow ! i)) row C))
                    [0 ..< ncols C])
                  R))"

text \<open>
  \<^verbatim>\<open>numpy.linalg.lstsq(A, B, rcond = None)[0]\<close> is a routine of the library, taken as a
  parameter of the model: from the matrices \<open>A\<close> and \<open>B\<close> to the solution, or LinAlgError.
  Its contract: on finite matrices with the same positive number of rows it returns a
  matrix with one row for each column of \<open>A\<close> and one column for each column of \<open>B\<close>.
\<close>

type_synonym lstsq_fn = "fval list list \<Rightarrow> cval list list \<Rightarrow> py_error + cval list list"

definition lstsq_contract :: "lstsq_fn \<Rightarrow> bool" where
  "lstsq_contract lstsq =
     (\<forall>A B n k. A \<noteq> [] \<and> length A = length B
        \<and> (\<forall>row \<in> set A. length row = n \<and> list_all is_fin row)
        \<and> (\<forall>row \<in> set B. length row = k \<and> list_all cfin row)
        \<longrightarrow> (\<exists>X. lstsq A B = Inr X \<and> length X = n \<and> (\<forall>row \<in> set X. length row = k)))"

text \<open>A stand-in that meets the contract: the zero matrix of the right shape.\<close>

definition lstsq_zero :: lstsq_fn where
  "lstsq_zero A B = Inr (replicate (ncols A) (replicate (ncols B) (Fin 0, Fin 0)))"

text \<open>
  \<^verbatim>\<open>numpy.max\<close> over all elements: NaN as soon as one element is NaN; ValueError on an
  array without elements.
\<close>

fun fle :: "fval \<Rightarrow> fval \<Rightarrow> bool" where
  "fle (Fin x) (Fin y) = (x \<le> y)"
| "fle NInf _ = True"
| "fle _ PInf = True"
| "fle _ _ = False"

definition fmax :: "fval \<Rightarrow> fval \<Rightarrow> fval" where
  "fmax a b = (if a = NaN \<or> b = NaN then NaN else if fle a b then b else a)"

definition amax :: "fval list list \<Rightarrow> py_error + fval" where
  "amax g = (case concat g of [] \<Rightarrow> Inl ValueError | x # xs \<Rightarrow> Inr (foldl fmax x xs))"

subsection \<open>gLZRScan\<close>

text \<open>
  One entry of the radial transform (equation 5 of Li, Xue and Blu), for a scaling factor
  \<open>sf\<close> and a defocus term \<open>b\<close>: the numerator, then \<^verbatim>\<open>R /= denom\<close>.
\<close>

definition radial_denom :: "fval \<Rightarrow> fval \<Rightarrow> fval" where
  "radial_denom sf b = fsub (fmul sf sf) (fmul b b)"

definition radial_num :: "fval \<Rightarrow> fval \<Rightarrow> real \<Rightarrow> fval" where
  "radial_num sf b max_rho =
     fsub (fmul (fmul (fmul sf (fJ1 (fmul sf (Fin max_rho)))) (fJ0 (fmul b (Fin max_rho))))
                (Fin max_rho))
          (fmul (fmul (fmul b (fJ0 (fmul sf (Fin max_rho)))) (fJ1 (fmul b (Fin max_rho))))
                (Fin max_rho))"

definition radial_R :: "fval \<Rightarrow> fval \<Rightarrow> real \<Rightarrow> fval" where
  "radial_R sf b max_rho = fdiv (radial_num sf b max_rho) (radial_denom sf b)"

text \<open>
  The normalisation \<^verbatim>\<open>PSF_rz /= numpy.max(PSF_rz)\<close>. The flag \<^verbatim>\<open>normalize\<close> of the
  source is written \<open>normalise\<close>.
\<close>

definition normalize_grid :: "fval list list \<Rightarrow> py_error + fval list list" where
  "normalize_grid PSF_rz =
     bindE (amax PSF_rz) (\<lambda>m. Inr (map (map (\<lambda>x. fdiv x m)) PSF_rz))"

definition gLZRScan ::
  "lstsq_fn \<Rightarrow> mparams \<Rightarrow> real list \<Rightarrow> real list \<Rightarrow> real list \<Rightarrow> real list \<Rightarrow> bool \<Rightarrow> real
   \<Rightarrow> py_error + fval list list" where
  "gLZRScan lstsq mp pz rv zd zv normalise wvl =
     bindE (configure mp wvl) (\<lambda>(scaling_factor, max_rho).
     let rho = linspace 0 max_rho rho_samples in
     bindE (getp mp ''NA'') (\<lambda>NA.
     bindE (getp mp ''zd0'') (\<lambda>zd0.
     bindE (getp mp ''M'') (\<lambda>M.
     bindE (getp mp ''M'') (\<lambda>M'.
     bindE (getp mp ''NA'') (\<lambda>NA'.
     bindE (getp mp ''NA'') (\<lambda>NA''.
     bindE (math_sqrt (M * M' + NA' * NA'')) (\<lambda>s.
     bindE (py_div (NA * zd0) s) (\<lambda>a.
     bindE (py_div (2 * pi) wvl) (\<lambda>k.
     bindE (getp mp ''ti0'') (\<lambda>ti0.
     let ti = map (\<lambda>z. z + ti0) zv in
     bindE (OPD_cols mp rho ti pz wvl zd) (\<lambda>opdt.
     let phase = map (map cexp_i) opdt;
         J = map (\<lambda>sf. map (\<lambda>r. fJ0 (fmul sf (Fin r))) rho) scaling_factor in
     bindE (lstsq (transpose_m rho_samples J) (transpose_m rho_samples phase)) (\<lambda>C.
     bindE (getp mp ''M'') (\<lambda>M1.
     let rvM = map (\<lambda>r. r * M1) rv in
     bindE (broadcast (length rvM) (length zd)) (\<lambda>nb.
     let b = map (\<lambda>j. fdiv (Fin (k * a * bc rvM j)) (Fin (bc zd j))) [0 ..< nb];
         R = map (\<lambda>bj. map (\<lambda>sf. radial_R sf bj max_rho) scaling_factor) b in
     bindE (matdot (length scaling_factor) R C) (\<lambda>field.
     let PSF_rz = transpose_m (ncols C) (map (map (\<lambda>z. fmul (cabs z) (cabs z))) field) in
     if normalise then normalize_grid PSF_rz else Inr PSF_rz))))))))))))))))"

definition default_zd :: "mparams \<Rightarrow> real option \<Rightarrow> py_error + real" where
  "default_zd mp zd = (case zd of None \<Rightarrow> getp mp ''zd0'' | Some z \<Rightarrow> Inr z)"

definition gLZRCameraScan ::
  "lstsq_fn \<Rightarrow> mparams \<Rightarrow> real list \<Rightarrow> real list \<Rightarrow> bool \<Rightarrow> real \<Rightarrow> real \<Rightarrow> real
   \<Rightarrow> py_error + fval list list" where
  "gLZRCameraScan lstsq mp rv zd normalise pz wvl zv =
     gLZRScan lstsq mp [pz] rv zd [zv] normalise wvl"

definition gLZRFocalScan ::
  "lstsq_fn \<Rightarrow> mparams \<Rightarrow> real list \<Rightarrow> real list \<Rightarrow> bool \<Rightarrow> real \<Rightarrow> real \<Rightarrow> real option
   \<Rightarrow> py_error + fval list list" where
  "gLZRFocalScan lstsq mp rv zv normalise pz wvl zd =
     bindE (default_zd mp zd) (\<lambda>zd'. gLZRScan lstsq mp [pz] rv [zd'] zv normalise wvl)"

definition gLZRParticleScan ::
  "lstsq_fn \<Rightarrow> mparams \<Rightarrow> real list \<Rightarrow> real list \<Rightarrow> bool \<Rightarrow> real \<Rightarrow> real option \<Rightarrow> real
   \<Rightarrow> py_error + fval list list" where
  "gLZRParticleScan lstsq mp rv pz normalise wvl zd zv =
     bindE (default_zd mp zd) (\<lambda>zd'. gLZRScan lstsq mp pz rv [zd'] [zv] normalise wvl)"

subsection \<open>psfRZToPSFXYZ\<close>

text \<open>
  \<^verbatim>\<open>scipy.interpolate.interp1d(x, y)\<close> with its defaults (linear, \<^verbatim>\<open>bounds_error\<close>
  set): the samples sorted by \<open>x\<close>; ValueError when the lengths differ or there is no
  sample. Calling it raises ValueError as soon as one new point lies below the first or
  above the last sample; otherwise each value is \<open>slope * (x_new - x_lo) + y_lo\<close> on the
  interval found by a left binary search, clipped to the table.
\<close>

definition interp1d :: "real list \<Rightarrow> fval list \<Rightarrow> py_error + (real \<times> fval) list" where
  "interp1d x y =
     (if length x \<noteq> length y \<or> x = [] then Inl ValueError
      else Inr (sort_key fst (zip x y)))"

definition interp_linear :: "(real \<times> fval) list \<Rightarrow> real \<Rightarrow> fval" where
  "interp_linear table x_new =
     (let idx = length (filter (\<lambda>p. fst p < x_new) table);
          hi = min (max idx 1) (length table - 1);
          lo = hi - 1;
          x_lo = fst (table ! lo); y_lo = snd (table ! lo);
          x_hi = fst (table ! hi); y_hi = snd (table ! hi);
          slope = fdiv (fsub y_hi y_lo) (Fin (x_hi - x_lo))
      in fadd (fmul slope (Fin (x_new - x_lo))) y_lo)"

definition interp_call :: "(real \<times> fval) list \<Rightarrow> real list \<Rightarrow> py_error + fval list" where
  "interp_call table x_new =
     (if \<exists>x \<in> set x_new. x < fst (hd table) \<or> fst (last table) < x then Inl ValueError
      else Inr (map (interp_linear table) x_new))"

text \<open>The radius of the centre of pixel \<open>(i, j)\<close>: \<^verbatim>\<open>r_pixel[i, j]\<close>.\<close>

definition r_pixel :: "real \<Rightarrow> int \<Rightarrow> nat \<Rightarrow> nat \<Rightarrow> real" where
  "r_pixel dxy xy_size i j =
     (let c_xy = real_of_int xy_size * 0.5
      in dxy * sqrt ((real j + 0.5 - c_xy) * (real j + 0.5 - c_xy)
                     + (real i + 0.5 - c_xy) * (real i + 0.5 - c_xy)))"

text \<open>A loop that stops at the first exception.\<close>

fun mapE :: "('a \<Rightarrow> 'e + 'b) \<Rightarrow> 'a list \<Rightarrow> 'e + 'b list" where
  "mapE f [] = Inr []"
| "mapE f (x # xs) = bindE (f x) (\<lambda>y. bindE (mapE f xs) (\<lambda>ys. Inr (y # ys)))"

definition reshape2 :: "nat \<Rightarrow> 'a list \<Rightarrow> 'a list list" where
  "reshape2 n v = map (\<lambda>i. take n (drop (i * n) v)) [0 ..< n]"

text \<open>
  \<^verbatim>\<open>numpy.zeros((PSF_rz.shape[0], xy_size, xy_size))\<close> raises ValueError on a negative
  \<open>xy_size\<close>; then one interpolation per axial slice.
\<close>

definition psfRZToPSFXYZ ::
  "real \<Rightarrow> int \<Rightarrow> real list \<Rightarrow> fval list list \<Rightarrow> py_error + fval list list list" where
  "psfRZToPSFXYZ dxy xy_size rv PSF_rz =
     (if xy_size < 0 then Inl ValueError
      else
        let n = nat xy_size;
            r_flat = concat (map (\<lambda>i. map (\<lambda>j. r_pixel dxy xy_size i j) [0 ..< n]) [0 ..< n])
        in mapE (\<lambda>row.
                   bindE (interp1d rv row) (\<lambda>psf_rz_interp.
                   bindE (interp_call psf_rz_interp r_flat) (\<lambda>v.
                     Inr (reshape2 n v))))
             PSF_rz)"

subsection \<open>The XYZ scans\<close>

definition gLXYZCameraScan ::
  "lstsq_fn \<Rightarrow> mparams \<Rightarrow> real \<Rightarrow> int \<Rightarrow> real list \<Rightarrow> bool \<Rightarrow> real \<Rightarrow> real \<Rightarrow> real
   \<Rightarrow> py_error + fval list list list" where
  "gLXYZCameraScan lstsq mp dxy xy_size zd normalise pz wvl zv =
     bindE (calcRv dxy xy_size 2) (\<lambda>rv.
     bindE (gLZRCameraScan lstsq mp rv zd normalise pz wvl zv) (\<lambda>PSF_rz.
       psfRZToPSFXYZ dxy xy_size rv PSF_rz))"

definition gLXYZFocalScan ::
  "lstsq_fn \<Rightarrow> mparams \<Rightarrow> real \<Rightarrow> int \<Rightarrow> real list \<Rightarrow> bool \<Rightarrow> real \<Rightarrow> real \<Rightarrow> real option
   \<Rightarrow> py_error + fval list list list" where
  "gLXYZFocalScan lstsq mp dxy xy_size zv normalise pz wvl zd =
     bindE (calcRv dxy xy_size 2) (\<lambda>rv.
     bindE (gLZRFocalScan lstsq mp rv zv normalise pz wvl zd) (\<lambda>PSF_rz.
       psfRZToPSFXYZ dxy xy_size rv PSF_rz))"

definition gLXYZParticleScan ::
  "lstsq_fn \<Rightarrow> mparams \<Rightarrow> real \<Rightarrow> int \<Rightarrow> real list \<Rightarrow> bool \<Rightarrow> real \<Rightarrow> real option \<Rightarrow> real
   \<Rightarrow> py_error + fval list list list" where
  "gLXYZParticleScan lstsq mp dxy xy_size pz normalise wvl zd zv =
     bindE (calcRv dxy xy_size 2) (\<lambda>rv.
     bindE (gLZRParticleScan lstsq mp rv pz normalise wvl zd zv) (\<lambda>PSF_rz.
       psfRZToPSFXYZ dxy xy_size rv PSF_rz))"

text \<open>A volume of shape \<open>(n, m, m)\<close>, and a grid of shape \<open>(n, m)\<close>.\<close>

definition shape2 :: "'a list list \<Rightarrow> nat \<Rightarrow> nat \<Rightarrow> bool" where
  "shape2 g n m = (length g = n \<and> list_all (\<lambda>row. length row = m) g)"

definition shape3 :: "'a list list list \<Rightarrow> nat \<Rightarrow> nat \<Rightarrow> bool" where
  "shape3 vol n m = (length vol = n \<and> list_all (\<lambda>plane. shape2 plane m m) vol)"

subsection \<open>Auxiliary definitions for the proofs\<close>

text \<open>
  Names for values the functions above compute: the radius vector of \<^verbatim>\<open>calcRv\<close>, the
  flattened pixel radii of \<^verbatim>\<open>psfRZToPSFXYZ\<close>, and the two results of \<^verbatim>\<open>configure\<close>.
\<close>

definition rv_of :: "real \<Rightarrow> int \<Rightarrow> real list" where
  "rv_of dxy xy_size = map (\<lambda>i. real i * (dxy / 2)) [0 ..< rv_len xy_size]"

definition r_flat_of :: "real \<Rightarrow> int \<Rightarrow> real list" where
  "r_flat_of dxy xy_size =
     concat (map (\<lambda>i. map (\<lambda>j. r_pixel dxy xy_size i j) [0 ..< nat xy_size]) [0 ..< nat xy_size])"

definition max_rho_of :: "mparams \<Rightarrow> real" where
  "max_rho_of mp = min_list_py [the (mp ''NA''), the (mp ''ng0''), the (mp ''ng''), the (mp ''ni0''),
            the (mp ''ni''), the (mp ''ns'')] / the (mp ''NA'')"

definition sf_of :: "mparams \<Rightarrow> real \<Rightarrow> fval list" where
  "sf_of mp wvl =
     map (\<lambda>m. fdiv (Fin (the (mp ''NA'') * real_of_int (3 * int m - 2) * 0.436)) (Fin wvl))
       [1 ..< num_basis + 1]"

section \<open>The store: which arrays the operations write\<close>

text \<open>
  A second embedding of the same functions, at the level of the store. The state holds the
  parameter dictionary and the array buffers; an address is an index into the list of
  buffers. Each assignment of the source whose right-hand side computes a new array
  allocates a buffer (\<open>alloc\<close>); \<^verbatim>\<open>reshape\<close> and \<^verbatim>\<open>.T\<close> are views and share the buffer
  of their operand; the in-place statements \<^verbatim>\<open>R /= denom\<close>,
  \<^verbatim>\<open>PSF_rz /= numpy.max(PSF_rz)\<close>, \<^verbatim>\<open>PSF_xyz[i,:,:] = ...\<close> and \<^verbatim>\<open>psf_rz[i,j] = ...\<close>
  overwrite a buffer (\<open>store\<close>). Temporaries inside one expression are not modelled.
  Buffer contents are computed by the functions of the value-level embedding.
\<close>

datatype buf =
  Vec "real list" | FVec "fval list" | FMat "fval list list" | CMat "cval list list"
  | FVol "fval list list list"

fun vec_of :: "buf \<Rightarrow> real list" where
  "vec_of (Vec xs) = xs"
| "vec_of _ = []"

fun fvec_of :: "buf \<Rightarrow> fval list" where
  "fvec_of (FVec xs) = xs"
| "fvec_of _ = []"

fun fmat_of :: "buf \<Rightarrow> fval list list" where
  "fmat_of (FMat xs) = xs"
| "fmat_of _ = []"

fun cmat_of :: "buf \<Rightarrow> cval list list" where
  "cmat_of (CMat xs) = xs"
| "cmat_of _ = []"

fun fvol_of :: "buf \<Rightarrow> fval list list list" where
  "fvol_of (FVol xs) = xs"
| "fvol_of _ = []"

record pystate =
  mp_obj :: mparams
  heap :: "buf list"

type_synonym 'a prog = "pystate \<Rightarrow> (py_error + 'a) \<times> pystate"

definition returnS :: "'a \<Rightarrow> 'a prog" where
  "returnS x = (\<lambda>s. (Inr x, s))"

definition liftE :: "py_error + 'a \<Rightarrow> 'a prog" where
  "liftE r = (\<lambda>s. (r, s))"

definition bindS :: "'a prog \<Rightarrow> ('a \<Rightarrow> 'b prog) \<Rightarrow> 'b prog" where
  "bindS m f = (\<lambda>s. case m s of (Inl e, s') \<Rightarrow> (Inl e, s') | (Inr x, s') \<Rightarrow> f x s')"

definition with_mp :: "(mparams \<Rightarrow> py_error + 'a) \<Rightarrow> 'a prog" where
  "with_mp f = (\<lambda>s. (f (mp_obj s), s))"

definition alloc :: "buf \<Rightarrow> nat prog" where
  "alloc b = (\<lambda>s. (Inr (length (heap s)), s\<lparr>heap := heap s @ [b]\<rparr>))"

definition load :: "nat \<Rightarrow> buf prog" where
  "load a = (\<lambda>s. (Inr (heap s ! a), s))"

definition store :: "nat \<Rightarrow> buf \<Rightarrow> unit prog" where
  "store a b = (\<lambda>s. (Inr (), s\<lparr>heap := (heap s)[a := b]\<rparr>))"

definition frames :: "nat \<Rightarrow> 'a prog \<Rightarrow> ('a \<Rightarrow> bool) \<Rightarrow> bool" where
  "frames n p Q =
     (\<forall>s. n \<le> length (heap s) \<longrightarrow>
        mp_obj (snd (p s)) = mp_obj s
        \<and> n \<le> length (heap (snd (p s)))
        \<and> take n (heap (snd (p s))) = take n (heap s)
        \<and> (\<forall>x. fst (p s) = Inr x \<longrightarrow> Q x))"

definition OPD_h :: "nat \<Rightarrow> real \<Rightarrow> real \<Rightarrow> real \<Rightarrow> real \<Rightarrow> nat prog" where
  "OPD_h rho ti pz wvl zd =
     bindS (with_mp (\<lambda>mp. OPD_env mp wvl)) (\<lambda>e.
     bindS (load rho) (\<lambda>rb.
     bindS (alloc (FVec (map (OPDs e pz) (vec_of rb)))) (\<lambda>opds.
     bindS (load rho) (\<lambda>rb.
     bindS (alloc (FVec (map (OPDi e ti) (vec_of rb)))) (\<lambda>opdi.
     bindS (load rho) (\<lambda>rb.
     bindS (alloc (FVec (map (OPDg e) (vec_of rb)))) (\<lambda>opdg.
     bindS (load rho) (\<lambda>rb.
     bindS (alloc (FVec (map (OPDt e zd) (vec_of rb)))) (\<lambda>opdt.
     bindS (load opds) (\<lambda>sb.
     bindS (load opdi) (\<lambda>ib.
     bindS (load opdg) (\<lambda>gb.
     bindS (load opdt) (\<lambda>tb.
       alloc (FVec (map (\<lambda>i. fmul (Fin (e_k e))
                            (fadd (fadd (fadd (fvec_of sb ! i) (fvec_of ib ! i)) (fvec_of gb ! i))
                                  (fvec_of tb ! i)))
                     [0 ..< length (fvec_of sb)])))))))))))))))"

definition OPD_cols_h :: "nat \<Rightarrow> nat \<Rightarrow> nat \<Rightarrow> real \<Rightarrow> nat \<Rightarrow> nat prog" where
  "OPD_cols_h rho ti pz wvl zd =
     bindS (with_mp (\<lambda>mp. OPD_env mp wvl)) (\<lambda>e.
     bindS (load pz) (\<lambda>pb.
     bindS (load rho) (\<lambda>rb.
     bindS (alloc (FMat (map (\<lambda>p. map (OPDs e p) (vec_of rb)) (vec_of pb)))) (\<lambda>opds.
     bindS (load ti) (\<lambda>tb.
     bindS (load rho) (\<lambda>rb.
     bindS (alloc (FMat (map (\<lambda>t. map (OPDi e t) (vec_of rb)) (vec_of tb)))) (\<lambda>opdi.
     bindS (load rho) (\<lambda>rb.
     bindS (alloc (FVec (map (OPDg e) (vec_of rb)))) (\<lambda>opdg.
     bindS (load zd) (\<lambda>zb.
     bindS (load rho) (\<lambda>rb.
     bindS (alloc (FMat (map (\<lambda>z. map (OPDt e z) (vec_of rb)) (vec_of zb)))) (\<lambda>opdt.
     bindS (load opds) (\<lambda>sb.
     bindS (load opdi) (\<lambda>ib.
     bindS (load opdg) (\<lambda>gb.
     bindS (load opdt) (\<lambda>tb.
     bindS (liftE (broadcast (length (fmat_of sb)) (length (fmat_of ib)))) (\<lambda>n1.
     bindS (liftE (broadcast n1 (length (fmat_of tb)))) (\<lambda>n.
       alloc (FMat (map (\<lambda>i. map (\<lambda>j. fmul (Fin (e_k e))
                               (fadd (fadd (fadd (bc (fmat_of sb) i ! j) (bc (fmat_of ib) i ! j))
                                           (fvec_of gb ! j))
                                     (bc (fmat_of tb) i ! j)))
                                  [0 ..< length (fvec_of gb)])
                     [0 ..< n]))))))))))))))))))))"

text \<open>
  A reference to a two-dimensional array: the buffer itself, or the transposed view
  \<^verbatim>\<open>X.T\<close> of a buffer, which shares it.
\<close>

datatype mref = Plain nat | Transposed nat nat

fun mref_addr :: "mref \<Rightarrow> nat" where
  "mref_addr (Plain a) = a"
| "mref_addr (Transposed a n) = a"

definition read_mat :: "mref \<Rightarrow> fval list list prog" where
  "read_mat r =
     (case r of
        Plain a \<Rightarrow> bindS (load a) (\<lambda>b. returnS (fmat_of b))
      | Transposed a n \<Rightarrow> bindS (load a) (\<lambda>b. returnS (transpose_m n (fmat_of b))))"

definition aperture :: "mparams \<Rightarrow> py_error + real" where
  "aperture mp =
     bindE (getp mp ''NA'') (\<lambda>NA.
     bindE (getp mp ''zd0'') (\<lambda>zd0.
     bindE (getp mp ''M'') (\<lambda>M.
     bindE (getp mp ''M'') (\<lambda>M'.
     bindE (getp mp ''NA'') (\<lambda>NA'.
     bindE (getp mp ''NA'') (\<lambda>NA''.
     bindE (math_sqrt (M * M' + NA' * NA'')) (\<lambda>s.
       py_div (NA * zd0) s)))))))"

definition gLZRScan_h ::
  "lstsq_fn \<Rightarrow> nat \<Rightarrow> nat \<Rightarrow> nat \<Rightarrow> nat \<Rightarrow> bool \<Rightarrow> real \<Rightarrow> mref prog" where
  "gLZRScan_h lstsq pz rv zd zv normalise wvl =
     bindS (with_mp (\<lambda>mp. configure mp wvl)) (\<lambda>cfg.
     bindS (alloc (FVec (fst cfg))) (\<lambda>scaling_factor.
     bindS (alloc (Vec (linspace 0 (snd cfg) rho_samples))) (\<lambda>rho.
     bindS (with_mp aperture) (\<lambda>a.
     bindS (liftE (py_div (2 * pi) wvl)) (\<lambda>k.
     bindS (with_mp (\<lambda>mp. getp mp ''ti0'')) (\<lambda>ti0.
     bindS (load zv) (\<lambda>zvb.
     bindS (alloc (Vec (map (\<lambda>z. z + ti0) (vec_of zvb)))) (\<lambda>ti.
     bindS (OPD_cols_h rho ti pz wvl zd) (\<lambda>opdt.
     bindS (load opdt) (\<lambda>ob.
     bindS (alloc (CMat (map (map cexp_i) (fmat_of ob)))) (\<lambda>phase.
     bindS (load scaling_factor) (\<lambda>sfb.
     bindS (load rho) (\<lambda>rb.
     bindS (alloc (FMat (map (\<lambda>sf. map (\<lambda>r. fJ0 (fmul sf (Fin r))) (vec_of rb))
                          (fvec_of sfb)))) (\<lambda>J.
     bindS (load J) (\<lambda>Jb.
     bindS (load phase) (\<lambda>pb.
     bindS (liftE (lstsq (transpose_m rho_samples (fmat_of Jb))
                         (transpose_m rho_samples (cmat_of pb)))) (\<lambda>Cv.
     bindS (alloc (CMat Cv)) (\<lambda>C.
     bindS (with_mp (\<lambda>mp. getp mp ''M'')) (\<lambda>M1.
     bindS (load rv) (\<lambda>rvb.
     bindS (alloc (Vec (map (\<lambda>r. r * M1) (vec_of rvb)))) (\<lambda>rvM.
     bindS (load rvM) (\<lambda>rmb.
     bindS (load zd) (\<lambda>zdb.
     bindS (liftE (broadcast (length (vec_of rmb)) (length (vec_of zdb)))) (\<lambda>nb.
     bindS (alloc (FVec (map (\<lambda>j. fdiv (Fin (k * a * bc (vec_of rmb) j))
                                        (Fin (bc (vec_of zdb) j))) [0 ..< nb]))) (\<lambda>b.
     bindS (load scaling_factor) (\<lambda>sfb.
     bindS (load b) (\<lambda>bb.
     bindS (alloc (FMat (map (\<lambda>bj. map (\<lambda>sf. radial_denom sf bj) (fvec_of sfb))
                          (fvec_of bb)))) (\<lambda>denom.
     bindS (alloc (FMat (map (\<lambda>bj. map (\<lambda>sf. radial_num sf bj (snd cfg)) (fvec_of sfb))
                          (fvec_of bb)))) (\<lambda>R.
     bindS (load R) (\<lambda>Rb.
     bindS (load denom) (\<lambda>db.
     bindS (store R (FMat (map2 (map2 fdiv) (fmat_of Rb) (fmat_of db)))) (\<lambda>u.
     bindS (load R) (\<lambda>Rb.
     bindS (load C) (\<lambda>Cb.
     bindS (liftE (matdot (length (fvec_of sfb)) (fmat_of Rb) (cmat_of Cb))) (\<lambda>field.
     bindS (alloc (FMat (map (map (\<lambda>z. fmul (cabs z) (cabs z))) field))) (\<lambda>X.
       if normalise
       then bindS (read_mat (Transposed X (ncols (cmat_of Cb)))) (\<lambda>PSF_rz.
            bindS (liftE (amax PSF_rz)) (\<lambda>m.
            bindS (load X) (\<lambda>Xb.
            bindS (store X (FMat (map (map (\<lambda>x. fdiv x m)) (fmat_of Xb)))) (\<lambda>u.
              returnS (Transposed X (ncols (cmat_of Cb)))))))
       else returnS (Transposed X (ncols (cmat_of Cb)))
     ))))))))))))))))))))))))))))))))))))"

definition gLZRCameraScan_h ::
  "lstsq_fn \<Rightarrow> nat \<Rightarrow> nat \<Rightarrow> bool \<Rightarrow> real \<Rightarrow> real \<Rightarrow> real \<Rightarrow> mref prog" where
  "gLZRCameraScan_h lstsq rv zd normalise pz wvl zv =
     bindS (alloc (Vec [pz])) (\<lambda>pz'.
     bindS (alloc (Vec [zv])) (\<lambda>zv'.
       gLZRScan_h lstsq pz' rv zd zv' normalise wvl))"

definition gLZRFocalScan_h ::
  "lstsq_fn \<Rightarrow> nat \<Rightarrow> nat \<Rightarrow> bool \<Rightarrow> real \<Rightarrow> real \<Rightarrow> real option \<Rightarrow> mref prog" where
  "gLZRFocalScan_h lstsq rv zv normalise pz wvl zd =
     bindS (with_mp (\<lambda>mp. default_zd mp zd)) (\<lambda>z.
     bindS (alloc (Vec [pz])) (\<lambda>pz'.
     bindS (alloc (Vec [z])) (\<lambda>zd'.
       gLZRScan_h lstsq pz' rv zd' zv normalise wvl)))"

definition gLZRParticleScan_h ::
  "lstsq_fn \<Rightarrow> nat \<Rightarrow> nat \<Rightarrow> bool \<Rightarrow> real \<Rightarrow> real option \<Rightarrow> real \<Rightarrow> mref prog" where
  "gLZRParticleScan_h lstsq rv pz normalise wvl zd zv =
     bindS (with_mp (\<lambda>mp. default_zd mp zd)) (\<lambda>z.
     bindS (alloc (Vec [z])) (\<lambda>zd'.
     bindS (alloc (Vec [zv])) (\<lambda>zv'.
       gLZRScan_h lstsq pz rv zd' zv' normalise wvl)))"

text \<open>
  The loop of \<^verbatim>\<open>psfRZToPSFXYZ\<close>: slice \<open>i\<close> of \<^verbatim>\<open>PSF_rz\<close> and \<^verbatim>\<open>rv\<close> are read, and
  plane \<open>i\<close> of \<^verbatim>\<open>PSF_xyz\<close> is overwritten.
\<close>

fun psf_loop_h :: "nat \<Rightarrow> nat \<Rightarrow> mref \<Rightarrow> nat \<Rightarrow> nat \<Rightarrow> nat list \<Rightarrow> unit prog" where
  "psf_loop_h n rv PSF_rz r_pix PSF_xyz [] = returnS ()"
| "psf_loop_h n rv PSF_rz r_pix PSF_xyz (i # is) =
     bindS (load rv) (\<lambda>rvb.
     bindS (read_mat PSF_rz) (\<lambda>g.
     bindS (liftE (interp1d (vec_of rvb) (g ! i))) (\<lambda>psf_rz_interp.
     bindS (load r_pix) (\<lambda>rpb.
     bindS (liftE (interp_call psf_rz_interp (vec_of rpb))) (\<lambda>v.
     bindS (load PSF_xyz) (\<lambda>vb.
     bindS (store PSF_xyz (FVol ((fvol_of vb)[i := reshape2 n v]))) (\<lambda>u.
       psf_loop_h n rv PSF_rz r_pix PSF_xyz is)))))))"

definition psfRZToPSFXYZ_h :: "real \<Rightarrow> int \<Rightarrow> nat \<Rightarrow> mref \<Rightarrow> nat prog" where
  "psfRZToPSFXYZ_h dxy xy_size rv PSF_rz =
     (let n = nat xy_size in
      bindS (alloc (FVol [map (\<lambda>i. map (\<lambda>j. Fin (real i + 0.5)) [0 ..< n]) [0 ..< n],
                          map (\<lambda>i. map (\<lambda>j. Fin (real j + 0.5)) [0 ..< n]) [0 ..< n]])) (\<lambda>xy.
      bindS (alloc (Vec (concat (map (\<lambda>i. map (\<lambda>j. r_pixel dxy xy_size i j) [0 ..< n])
                                   [0 ..< n])))) (\<lambda>r_pix.
      bindS (read_mat PSF_rz) (\<lambda>g.
      bindS (liftE (if xy_size < 0 then Inl ValueError else Inr ())) (\<lambda>u.
      bindS (alloc (FVol (replicate (length g) (replicate n (replicate n (Fin 0)))))) (\<lambda>PSF_xyz.
      bindS (psf_loop_h n rv PSF_rz r_pix PSF_xyz [0 ..< length g]) (\<lambda>u.
        returnS PSF_xyz)))))))"

definition gLXYZCameraScan_h ::
  "lstsq_fn \<Rightarrow> real \<Rightarrow> int \<Rightarrow> nat \<Rightarrow> bool \<Rightarrow> real \<Rightarrow> real \<Rightarrow> real \<Rightarrow> nat prog" where
  "gLXYZCameraScan_h lstsq dxy xy_size zd normalise pz wvl zv =
     bindS (liftE (calcRv dxy xy_size 2)) (\<lambda>rvv.
     bindS (alloc (Vec rvv)) (\<lambda>rv.
     bindS (gLZRCameraScan_h lstsq rv zd normalise pz wvl zv) (\<lambda>PSF_rz.
       psfRZToPSFXYZ_h dxy xy_size rv PSF_rz)))"

definition gLXYZFocalScan_h ::
  "lstsq_fn \<Rightarrow> real \<Rightarrow> int \<Rightarrow> nat \<Rightarrow> bool \<Rightarrow> real \<Rightarrow> real \<Rightarrow> real option \<Rightarrow> nat prog" where
  "gLXYZFocalScan_h lstsq dxy xy_size zv normalise pz wvl zd =
     bindS (liftE (calcRv dxy xy_size 2)) (\<lambda>rvv.
     bindS (alloc (Vec rvv)) (\<lambda>rv.
     bindS (gLZRFocalScan_h lstsq rv zv normalise pz wvl zd) (\<lambda>PSF_rz.
       psfRZToPSFXYZ_h dxy xy_size rv PSF_rz)))"

definition gLXYZParticleScan_h ::
  "lstsq_fn \<Rightarrow> real \<Rightarrow> int \<Rightarrow> nat \<Rightarrow> bool \<Rightarrow> real \<Rightarrow> real option \<Rightarrow> real \<Rightarrow> nat prog" where
  "gLXYZParticleScan_h lstsq dxy xy_size pz normalise wvl zd zv =
     bindS (liftE (calcRv dxy xy_size 2)) (\<lambda>rvv.
     bindS (alloc (Vec rvv)) (\<lambda>rv.
     bindS (gLZRParticleScan_h lstsq rv pz normalise wvl zd zv) (\<lambda>PSF_rz.
       psfRZToPSFXYZ_h dxy xy_size rv PSF_rz)))"

text \<open>
  \<^verbatim>\<open>OPD\<close> as \<^verbatim>\<open>slowGL\<close> calls it, on Python scalars: the defocus term is a Python
  division and raises on a zero divisor.
\<close>

definition OPD_scalar :: "mparams \<Rightarrow> real \<Rightarrow> real \<Rightarrow> real \<Rightarrow> real \<Rightarrow> real \<Rightarrow> py_error + fval" where
  "OPD_scalar mp rho ti pz wvl zd =
     bindE (OPD_env mp wvl) (\<lambda>e.
     bindE (py_div (e_a e * e_a e * (e_zd0 e - zd) * rho * rho) (2 * e_zd0 e * zd)) (\<lambda>t.
       Inr (fmul (Fin (e_k e))
              (fadd (fadd (fadd (OPDs e pz rho) (OPDi e ti rho)) (OPDg e rho)) (Fin t)))))"

text \<open>
  \<^verbatim>\<open>scipy.integrate.quad(f, a, b)[0]\<close> is a routine of the library, taken as a parameter:
  from the integrand (which may raise) and the bounds to the value, or the integrand's
  exception.
\<close>

type_synonym quad_fn = "(real \<Rightarrow> py_error + fval) \<Rightarrow> real \<Rightarrow> real \<Rightarrow> py_error + fval"

definition slowGL_integrand ::
  "mparams \<Rightarrow> real \<Rightarrow> real \<Rightarrow> real \<Rightarrow> real \<Rightarrow> real \<Rightarrow> real \<Rightarrow> real \<Rightarrow> real \<Rightarrow> py_error + cval" where
  "slowGL_integrand mp k a rv ti pz wvl zd rho =
     bindE (py_div (k * a * rho * rv) zd) (\<lambda>t1.
     let t2 = bessel_j0 t1 in
     bindE (OPD_scalar mp rho ti pz wvl zd) (\<lambda>opd.
       Inr (cmul (cmul (Fin t2, Fin 0) (cexp_i opd)) (Fin rho, Fin 0))))"

definition slowGL ::
  "quad_fn \<Rightarrow> mparams \<Rightarrow> real \<Rightarrow> real \<Rightarrow> real \<Rightarrow> real \<Rightarrow> real \<Rightarrow> real \<Rightarrow> py_error + fval" where
  "slowGL quad mp max_rho rv zv pz wvl zd =
     bindE (aperture mp) (\<lambda>a.
     bindE (py_div (2 * pi) wvl) (\<lambda>k.
     bindE (getp mp ''ti0'') (\<lambda>ti0.
     let ti = zv + ti0 in
     bindE (getp mp ''M'') (\<lambda>M.
     let rvM = rv * M in
     bindE (quad (\<lambda>rho. bindE (slowGL_integrand mp k a rvM ti pz wvl zd rho) (\<lambda>t3. Inr (snd t3)))
              0 max_rho) (\<lambda>int_i.
     bindE (quad (\<lambda>rho. bindE (slowGL_integrand mp k a rvM ti pz wvl zd rho) (\<lambda>t3. Inr (fst t3)))
              0 max_rho) (\<lambda>int_r.
     bindE (py_div (k * a * a) (zd * zd)) (\<lambda>t1.
       Inr (fmul (Fin t1) (fadd (fmul int_r int_r) (fmul int_i int_i))))))))))"

definition slowGL_h ::
  "quad_fn \<Rightarrow> real \<Rightarrow> real \<Rightarrow> real \<Rightarrow> real \<Rightarrow> real \<Rightarrow> real \<Rightarrow> fval prog" where
  "slowGL_h quad max_rho rv zv pz wvl zd =
     with_mp (\<lambda>mp. slowGL quad mp max_rho rv zv pz wvl zd)"

text \<open>
  The double loop of the slow scans, over the index pairs in row-major order: one value
  is computed and written to \<^verbatim>\<open>psf_rz[i, j]\<close>.
\<close>

fun slow_loop_h :: "(nat \<Rightarrow> nat \<Rightarrow> fval prog) \<Rightarrow> nat \<Rightarrow> (nat \<times> nat) list \<Rightarrow> unit prog" where
  "slow_loop_h f psf_rz [] = returnS ()"
| "slow_loop_h f psf_rz (ij # rest) =
     bindS (f (fst ij) (snd ij)) (\<lambda>v.
     bindS (load psf_rz) (\<lambda>b.
     bindS (store psf_rz
              (FMat ((fmat_of b)[fst ij := (fmat_of b ! fst ij)[snd ij := v]]))) (\<lambda>u.
       slow_loop_h f psf_rz rest)))"

definition slow_finish_h :: "bool \<Rightarrow> nat \<Rightarrow> nat prog" where
  "slow_finish_h normalise psf_rz =
     (if normalise
      then bindS (load psf_rz) (\<lambda>b.
           bindS (liftE (amax (fmat_of b))) (\<lambda>m.
             alloc (FMat (map (map (\<lambda>x. fdiv x m)) (fmat_of b)))))
      else returnS psf_rz)"

definition gLZRFocalScanSlow_h ::
  "quad_fn \<Rightarrow> nat \<Rightarrow> nat \<Rightarrow> bool \<Rightarrow> real \<Rightarrow> real \<Rightarrow> real option \<Rightarrow> nat prog" where
  "gLZRFocalScanSlow_h quad rv zv normalise pz wvl zd =
     bindS (with_mp (\<lambda>mp. default_zd mp zd)) (\<lambda>z.
     bindS (with_mp (\<lambda>mp. configure mp wvl)) (\<lambda>cfg.
     bindS (alloc (FVec (fst cfg))) (\<lambda>scaling_factor.
     bindS (alloc (Vec (linspace 0 (snd cfg) rho_samples))) (\<lambda>rho.
     bindS (load zv) (\<lambda>zvb.
     bindS (load rv) (\<lambda>rvb.
     bindS (alloc (FMat (replicate (length (vec_of zvb))
                          (replicate (length (vec_of rvb)) (Fin 0))))) (\<lambda>psf_rz.
     bindS (slow_loop_h
              (\<lambda>i j. bindS (load rv) (\<lambda>rb. bindS (load zv) (\<lambda>zb.
                         slowGL_h quad (snd cfg) (vec_of rb ! j) (vec_of zb ! i) pz wvl z)))
              psf_rz
              (List.product [0 ..< length (vec_of zvb)] [0 ..< length (vec_of rvb)])) (\<lambda>u.
       slow_finish_h normalise psf_rz))))))))"

definition gLZRParticleScanSlow_h ::
  "quad_fn \<Rightarrow> nat \<Rightarrow> nat \<Rightarrow> bool \<Rightarrow> real \<Rightarrow> real option \<Rightarrow> real \<Rightarrow> nat prog" where
  "gLZRParticleScanSlow_h quad rv pz normalise wvl zd zv =
     bindS (with_mp (\<lambda>mp. default_zd mp zd)) (\<lambda>z.
     bindS (with_mp (\<lambda>mp. configure mp wvl)) (\<lambda>cfg.
     bindS (alloc (FVec (fst cfg))) (\<lambda>scaling_factor.
     bindS (alloc (Vec (linspace 0 (snd cfg) rho_samples))) (\<lambda>rho.
     bindS (load pz) (\<lambda>pzb.
     bindS (load rv) (\<lambda>rvb.
     bindS (alloc (FMat (replicate (length (vec_of pzb))
                          (replicate (length (vec_of rvb)) (Fin 0))))) (\<lambda>psf_rz.
     bindS (slow_loop_h
              (\<lambda>i j. bindS (load rv) (\<lambda>rb. bindS (load pz) (\<lambda>pb.
                         slowGL_h quad (snd cfg) (vec_of rb ! j) zv (vec_of pb ! i) wvl z)))
              psf_rz
              (List.product [0 ..< length (vec_of pzb)] [0 ..< length (vec_of rvb)])) (\<lambda>u.
       slow_finish_h normalise psf_rz))))))))"

definition unchanged :: "pystate \<Rightarrow> pystate \<Rightarrow> bool" where
  "unchanged s s' =
     (mp_obj s' = mp_obj s \<and> length (heap s) \<le> length (heap s')
      \<and> take (length (heap s)) (heap s') = heap s)"

definition fresh_in :: "pystate \<Rightarrow> py_error + nat \<Rightarrow> bool" where
  "fresh_in s r = (case r of Inl e \<Rightarrow> True | Inr a \<Rightarrow> length (heap s) \<le> a)"

definition run_ok :: "pystate \<Rightarrow> nat prog \<Rightarrow> bool" where
  "run_ok s p = (unchanged s (snd (p s)) \<and> fresh_in s (fst (p s)))"

definition as_addr :: "mref prog \<Rightarrow> nat prog" where
  "as_addr p = bindS p (\<lambda>r. returnS (mref_addr r))"

definition state_example :: pystate where
  "state_example =
     \<lparr>mp_obj = mp_example, heap = [Vec [0], Vec [0, 0.05, 0.1], Vec [150000], Vec [- 1, 0, 1]]\<rparr>"

text \<open>
  What a reference to a two-dimensional array denotes in a state, and the four
  temporaries that \<^verbatim>\<open>OPD\<close> allocates before its result.
\<close>

definition OPD_cols_temps :: "opd_env \<Rightarrow> real list \<Rightarrow> real list \<Rightarrow> real list \<Rightarrow> real list \<Rightarrow> buf list" where
  "OPD_cols_temps e r tiv pzv zdv =
     [FMat (map (\<lambda>p. map (OPDs e p) r) pzv), FMat (map (\<lambda>t. map (OPDi e t) r) tiv),
      FVec (map (OPDg e) r), FMat (map (\<lambda>z. map (OPDt e z) r) zdv)]"

definition view_h :: "mref \<Rightarrow> pystate \<Rightarrow> fval list list" where
  "view_h r s =
     (case r of Plain a \<Rightarrow> fmat_of (heap s ! a)
      | Transposed a n \<Rightarrow> transpose_m n (fmat_of (heap s ! a)))"

section \<open>Binary64 arithmetic\<close>

text \<open>
  Python floats and numpy's default arrays are IEEE binary64 numbers, and every arithmetic
  operation of the source rounds its exact result to the nearest of them, ties to the even
  significand. The definitions below give that rounding: \<open>ulp64 x\<close> is the distance
  between neighbouring binary64 numbers at the magnitude of \<open>x\<close> (significands of 53
  bits, subnormal numbers at multiples of \<open>2^-1074\<close>), \<open>rd x\<close> the nearest binary64
  number when the exponent range is unbounded above, and \<open>round64\<close> the rounding with
  overflow to an infinity. Signed zeros are not distinguished.
\<close>

definition rhe :: "real \<Rightarrow> int" where
  "rhe q =
     (let f = \<lfloor>q\<rfloor>; r = q - of_int f
      in if r < 1 / 2 then f else if 1 / 2 < r then f + 1 else if even f then f else f + 1)"

definition emin :: nat where
  "emin = 1074"

definition ulp64 :: "real \<Rightarrow> real" where
  "ulp64 x = 2 ^ nat (bitlen \<lfloor>\<bar>x\<bar> * 2 ^ emin\<rfloor> - 53) / 2 ^ emin"

definition rd :: "real \<Rightarrow> real" where
  "rd x = of_int (rhe (x / ulp64 x)) * ulp64 x"

definition round64 :: "fval \<Rightarrow> fval" where
  "round64 v =
     (case v of
        Fin x \<Rightarrow> if 2 ^ 1024 \<le> \<bar>rd x\<bar> then finf (0 < x) else Fin (rd x)
      | _ \<Rightarrow> v)"

text \<open>The rounded operations of numpy arrays, and of Python floats where they do not raise.\<close>

definition dadd :: "fval \<Rightarrow> fval \<Rightarrow> fval" where
  "dadd a b = round64 (fadd a b)"

definition dsub :: "fval \<Rightarrow> fval \<Rightarrow> fval" where
  "dsub a b = round64 (fsub a b)"

definition dmul :: "fval \<Rightarrow> fval \<Rightarrow> fval" where
  "dmul a b = round64 (fmul a b)"





subsection \<open>OPD in binary64\<close>
















text \<open>For the proofs: the unit in the last place as a shift, and finite values in an interval.\<close>

definition ulp_shift :: "real \<Rightarrow> nat" where
  "ulp_shift x = nat (bitlen \<lfloor>\<bar>x\<bar> * 2 ^ emin\<rfloor> - 53)"

definition fin_in :: "real \<Rightarrow> real \<Rightarrow> fval \<Rightarrow> bool" where
  "fin_in lo hi v = (\<exists>y. v = Fin y \<and> lo \<le> y \<and> y \<le> hi)"

section \<open>Properties\<close>

subsection \<open>The exception monad\<close>

lemma bindE_Inl: "bindE (Inl e) f = Inl e"
  by (simp add: bindE_def)

lemma bindE_Inr: "bindE (Inr x) f = f x"
  by (simp add: bindE_def)

subsection \<open>calcRv\<close>

lemma rv_len_ge: "2 * sqrt (0.5 * real_of_int xy_size * real_of_int xy_size) + 2 \<le> real (rv_len xy_size)"
proof -
  define s where "s = sqrt (0.5 * real_of_int xy_size * real_of_int xy_size)"
  have s0: "0 \<le> s" unfolding s_def by simp
  have c: "2 * (s + 1) \<le> real_of_int \<lceil>2 * (s + 1)\<rceil>" by (rule le_of_int_ceiling)
  have "(0::real) \<le> 2 * (s + 1)" using s0 by simp
  hence "\<lceil>0::real\<rceil> \<le> \<lceil>2 * (s + 1)\<rceil>" by (rule ceiling_mono)
  hence "0 \<le> \<lceil>2 * (s + 1)\<rceil>" by simp
  hence "real (nat \<lceil>2 * (s + 1)\<rceil>) = real_of_int \<lceil>2 * (s + 1)\<rceil>" by simp
  hence "2 * (s + 1) \<le> real (nat \<lceil>2 * (s + 1)\<rceil>)" using c by simp
  hence "2 * (s + 1) \<le> real (rv_len xy_size)" unfolding rv_len_def s_def .
  thus ?thesis unfolding s_def by (simp add: algebra_simps)
qed

lemma rv_len_pos: "2 \<le> rv_len xy_size"
proof -
  have "0 \<le> sqrt (0.5 * real_of_int xy_size * real_of_int xy_size)" by simp
  hence "2 \<le> real (rv_len xy_size)" using rv_len_ge [of xy_size] by linarith
  thus ?thesis by simp
qed

lemma calcRv_eq:
  assumes "dxy \<noteq> 0"
  shows "calcRv dxy xy_size 2 = Inr (map (\<lambda>i. real i * (dxy / 2)) [0 ..< rv_len xy_size])"
proof -
  define s where "s = sqrt (0.5 * real_of_int xy_size * real_of_int xy_size)"
  have nn: "\<not> 0.5 * real_of_int xy_size * real_of_int xy_size < 0"
    by (simp add: not_less)
  have m: "math_sqrt (0.5 * real_of_int xy_size * real_of_int xy_size) = Inr s"
    unfolding math_sqrt_def s_def using nn by (simp only: if_False)
  have d: "py_div dxy (real_of_int 2) = Inr (dxy / 2)"
    unfolding py_div_def by simp
  have q: "((s + 1) * dxy - 0) / (dxy / 2) = 2 * (s + 1)" using assms by simp
  have st: "dxy / 2 \<noteq> 0" using assms by simp
  have ar: "arange 0 ((s + 1) * dxy) (dxy / 2)
      = Inr (map (\<lambda>i. real i * (dxy / 2)) [0 ..< nat \<lceil>2 * (s + 1)\<rceil>])"
    unfolding arange_def using st by (simp only: q if_False add_0)
  have "calcRv dxy xy_size 2 = arange 0 ((s + 1) * dxy) (dxy / 2)"
    unfolding calcRv_def m d bindE_Inr Let_def ..
  hence "calcRv dxy xy_size 2
      = Inr (map (\<lambda>i. real i * (dxy / 2)) [0 ..< nat \<lceil>2 * (s + 1)\<rceil>])"
    by (simp only: ar)
  thus ?thesis unfolding rv_len_def s_def .
qed



subsection \<open>Parameter sets and configure\<close>

lemma getp_the: "mp key \<noteq> None \<Longrightarrow> getp mp key = Inr (the (mp key))"
  by (auto simp: getp_def)

lemma mp_defined_keys:
  assumes "mp_defined mp"
  shows "mp ''NA'' \<noteq> None" "mp ''M'' \<noteq> None" "mp ''ns'' \<noteq> None" "mp ''ng0'' \<noteq> None"
    "mp ''ng'' \<noteq> None" "mp ''ni0'' \<noteq> None" "mp ''ni'' \<noteq> None" "mp ''ti0'' \<noteq> None"
    "mp ''tg'' \<noteq> None" "mp ''tg0'' \<noteq> None" "mp ''zd0'' \<noteq> None"
  using assms by (simp_all add: mp_defined_def mp_keys_def)

lemma valid_mp_pos:
  assumes "valid_mp mp"
  shows "0 < the (mp ''NA'')" "0 < the (mp ''ns'')" "0 < the (mp ''ng0'')"
    "0 < the (mp ''ng'')" "0 < the (mp ''ni0'')" "0 < the (mp ''ni'')" "mp_defined mp"
  using assms by (simp_all add: valid_mp_def)

lemma mp_example_valid: "valid_mp mp_example"
  by (simp add: valid_mp_def mp_defined_def mp_keys_def mp_example_def del: not_None_eq)

lemma min_list_py6: "min_list_py [a, b, c, d, e, f] = Min {a, b, c, d, e, f}"
  by (simp add: min_list_py_def min.assoc)

lemma configure_eq:
  assumes "mp_defined mp" "the (mp ''NA'') \<noteq> 0"
  shows "configure mp wvl =
     Inr (map (\<lambda>m. fdiv (Fin (the (mp ''NA'') * real_of_int (3 * int m - 2) * 0.436)) (Fin wvl))
            [1 ..< num_basis + 1],
          min_list_py [the (mp ''NA''), the (mp ''ng0''), the (mp ''ng''), the (mp ''ni0''),
            the (mp ''ni''), the (mp ''ns'')] / the (mp ''NA''))"
  unfolding configure_def Let_def
  using assms(2)
  by (simp add: getp_the mp_defined_keys [OF assms(1)] bindE_Inr py_div_def)

lemma sf_nth:
  assumes "1 \<le> m" "m \<le> num_basis"
  shows "map f [1 ..< num_basis + 1] ! (m - 1) = f m"
proof -
  have j: "m - 1 < length [1 ..< num_basis + 1]" using assms by (simp del: upt_Suc)
  have "1 + (m - 1) < num_basis + 1" using assms by linarith
  hence "[1 ..< num_basis + 1] ! (m - 1) = 1 + (m - 1)" by (rule nth_upt)
  hence i: "[1 ..< num_basis + 1] ! (m - 1) = m" using assms by simp
  show ?thesis by (simp only: nth_map [OF j] i)
qed

text \<open>
  C5. For a valid parameter set and a non-zero wavelength, \<^verbatim>\<open>configure\<close> returns
  \<open>num_basis = 100\<close> scaling factors, the \<open>m\<close>-th (for \<open>m = 1..100\<close>) being
  \<open>NA * (3m - 2) * 0.436 / wvl\<close>, and \<open>max_rho = min(NA, ng0, ng, ni0, ni, ns) / NA\<close>.
\<close>

theorem configure_contract:
  assumes "valid_mp mp" "wvl \<noteq> 0"
  shows "\<exists>sf max_rho. configure mp wvl = Inr (sf, max_rho) \<and> length sf = 100
           \<and> (\<forall>m. 1 \<le> m \<and> m \<le> 100 \<longrightarrow>
                 sf ! (m - 1) = Fin (the (mp ''NA'') * (3 * real m - 2) * 0.436 / wvl))
           \<and> max_rho = Min {the (mp ''NA''), the (mp ''ng0''), the (mp ''ng''),
                 the (mp ''ni0''), the (mp ''ni''), the (mp ''ns'')} / the (mp ''NA'')"
proof -
  have d: "mp_defined mp" and na: "the (mp ''NA'') \<noteq> 0"
    using valid_mp_pos [OF assms(1)] by simp_all
  let ?f = "\<lambda>m. fdiv (Fin (the (mp ''NA'') * real_of_int (3 * int m - 2) * 0.436)) (Fin wvl)"
  let ?sf = "map ?f [1 ..< num_basis + 1]"
  have "length ?sf = num_basis" by simp
  hence l: "length ?sf = 100" by (simp only: num_basis_def)
  have e: "\<forall>m. 1 \<le> m \<and> m \<le> 100 \<longrightarrow>
      ?sf ! (m - 1) = Fin (the (mp ''NA'') * (3 * real m - 2) * 0.436 / wvl)"
  proof (intro allI impI)
    fix m :: nat assume m: "1 \<le> m \<and> m \<le> 100"
    hence mb: "1 \<le> m" "m \<le> num_basis" by (simp_all only: num_basis_def)
    have "?sf ! (m - 1) = ?f m" by (rule sf_nth [OF mb])
    thus "?sf ! (m - 1) = Fin (the (mp ''NA'') * (3 * real m - 2) * 0.436 / wvl)"
      using assms(2) by simp
  qed
  let ?mr = "min_list_py [the (mp ''NA''), the (mp ''ng0''), the (mp ''ng''), the (mp ''ni0''),
            the (mp ''ni''), the (mp ''ns'')] / the (mp ''NA'')"
  have c: "configure mp wvl = Inr (?sf, ?mr)" by (rule configure_eq [OF d na])
  have m: "?mr = Min {the (mp ''NA''), the (mp ''ng0''), the (mp ''ng''),
                 the (mp ''ni0''), the (mp ''ni''), the (mp ''ns'')} / the (mp ''NA'')"
    by (simp only: min_list_py6)
  from c l e m show ?thesis by blast
qed

theorem configure_contract_witness:
  "valid_mp mp_example \<and> (0.6::real) \<noteq> 0 \<and>
   (\<exists>sf max_rho. configure mp_example 0.6 = Inr (sf, max_rho) \<and> length sf = 100
           \<and> (\<forall>m. 1 \<le> m \<and> m \<le> 100 \<longrightarrow>
                 sf ! (m - 1) = Fin (the (mp_example ''NA'') * (3 * real m - 2) * 0.436 / 0.6))
           \<and> max_rho = Min {the (mp_example ''NA''), the (mp_example ''ng0''), the (mp_example ''ng''),
                 the (mp_example ''ni0''), the (mp_example ''ni''), the (mp_example ''ns'')}
                  / the (mp_example ''NA''))"
proof -
  have w: "(0.6::real) \<noteq> 0" by simp
  show ?thesis
    by (intro conjI mp_example_valid w configure_contract [OF mp_example_valid w])
qed

subsection \<open>OPD\<close>

lemma OPD_env_eq:
  assumes "mp_defined mp" "the (mp ''M'') \<noteq> 0" "wvl \<noteq> 0"
  shows "OPD_env mp wvl =
     Inr \<lparr>e_NA = the (mp ''NA''), e_ns = the (mp ''ns''), e_ng0 = the (mp ''ng0''),
          e_ng = the (mp ''ng''), e_ni0 = the (mp ''ni0''), e_ni = the (mp ''ni''),
          e_ti0 = the (mp ''ti0''), e_tg = the (mp ''tg''), e_tg0 = the (mp ''tg0''),
          e_zd0 = the (mp ''zd0''),
          e_a = the (mp ''NA'') * the (mp ''zd0'') / the (mp ''M''),
          e_k = 2 * pi / wvl\<rparr>"
  unfolding OPD_env_def
  using assms(2,3)
  by (simp add: getp_the mp_defined_keys [OF assms(1)] bindE_Inr py_div_def)

lemma OPD_unfold:
  assumes "mp_defined mp" "the (mp ''M'') \<noteq> 0" "wvl \<noteq> 0"
  shows "OPD mp rho ti pz wvl zd = Inr (map (OPD_elem (env_of mp wvl) ti pz zd) rho)"
  unfolding OPD_def OPD_env_eq [OF assms] bindE_Inr env_of_def ..

lemma OPD_elem_spec:
  "OPD_elem (env_of mp wvl) ti pz zd r =
     OPD_spec (the (mp ''NA'')) (the (mp ''M'')) (the (mp ''ns'')) (the (mp ''ng0''))
                 (the (mp ''ng'')) (the (mp ''ni0'')) (the (mp ''ni'')) (the (mp ''ti0''))
                 (the (mp ''tg'')) (the (mp ''tg0'')) (the (mp ''zd0'')) ti pz wvl zd r"
  by (simp add: env_of_def OPD_elem_def OPDs_def OPDi_def OPDg_def OPDt_def OPD_spec_def
      OPD_sample_spec_def OPD_immersion_spec_def OPD_coverslip_spec_def OPD_defocus_spec_def
      Let_def power2_eq_square mult.assoc)

lemma mp_example_defined: "mp_defined mp_example"
  using mp_example_valid by (simp add: valid_mp_def)

lemma mp_example_M: "the (mp_example ''M'') \<noteq> 0"
  by (simp add: mp_example_def)

text \<open>
  C4. With every key present and the two Python scalar divisions defined (\<open>M\<close> and
  \<open>wvl\<close> non-zero), \<^verbatim>\<open>OPD\<close> returns at each sample of \<open>rho\<close> the value
  \<open>k * (OPD_sample + OPD_immersion + OPD_coverslip + OPD_defocus)\<close> of the specification,
  with \<open>k = 2 * pi / wvl\<close> and aperture radius \<open>a = NA * zd0 / M\<close>.
\<close>

theorem OPD_formula:
  assumes "mp_defined mp" "the (mp ''M'') \<noteq> 0" "wvl \<noteq> 0"
  shows "OPD mp rho ti pz wvl zd =
     Inr (map (OPD_spec (the (mp ''NA'')) (the (mp ''M'')) (the (mp ''ns'')) (the (mp ''ng0''))
                 (the (mp ''ng'')) (the (mp ''ni0'')) (the (mp ''ni'')) (the (mp ''ti0''))
                 (the (mp ''tg'')) (the (mp ''tg0'')) (the (mp ''zd0'')) ti pz wvl zd) rho)"
  unfolding OPD_unfold [OF assms] by (simp add: OPD_elem_spec)

theorem OPD_formula_witness:
  "mp_defined mp_example \<and> the (mp_example ''M'') \<noteq> 0 \<and> (0.6::real) \<noteq> 0 \<and>
   OPD mp_example [0, 0.5] 150 2 0.6 150000 =
     Inr (map (OPD_spec (the (mp_example ''NA'')) (the (mp_example ''M'')) (the (mp_example ''ns''))
                 (the (mp_example ''ng0'')) (the (mp_example ''ng'')) (the (mp_example ''ni0''))
                 (the (mp_example ''ni'')) (the (mp_example ''ti0'')) (the (mp_example ''tg''))
                 (the (mp_example ''tg0'')) (the (mp_example ''zd0'')) 150 2 0.6 150000) [0, 0.5])"
proof -
  have w: "(0.6::real) \<noteq> 0" by simp
  show ?thesis
    using mp_example_defined mp_example_M w
      OPD_formula [OF mp_example_defined mp_example_M w, of "[0, 0.5]" 150 2 150000] by blast
qed

lemma OPD_elem_nan:
  assumes "e_ns e * e_ns e - e_NA e * e_NA e * r * r < 0"
  shows "OPD_elem e ti pz zd r = NaN"
proof -
  have "OPDs e pz r = NaN" using assms by (simp add: OPDs_def)
  hence "fadd (fadd (fadd (OPDs e pz r) (OPDi e ti r)) (OPDg e r)) (OPDt e zd r) = NaN"
    by simp
  thus ?thesis by (simp add: OPD_elem_def)
qed

text \<open>
  Over the reals, beyond the pupil: the parameter set of the specification's example has
  every actual value equal to its design value, and at the radius \<open>rho = 1\<close> (where
  \<open>ns\<^sup>2 < NA\<^sup>2 * rho\<^sup>2\<close>) \<^verbatim>\<open>OPD(mp, [1], ti0, 0, 0.6, zd0)\<close> is NaN: the sample
  term is \<open>0 * sqrt(negative)\<close>.
\<close>

lemma OPD_nan_beyond_pupil:
  "OPD mp_example [1] (the (mp_example ''ti0'')) 0 0.6 (the (mp_example ''zd0'')) = Inr [NaN]"
proof -
  have w: "(0.6::real) \<noteq> 0" by simp
  have "e_ns (env_of mp_example 0.6) * e_ns (env_of mp_example 0.6)
      - e_NA (env_of mp_example 0.6) * e_NA (env_of mp_example 0.6) * 1 * 1 < 0"
    by (simp add: env_of_def mp_example_def)
  hence "OPD_elem (env_of mp_example 0.6) (the (mp_example ''ti0'')) 0 (the (mp_example ''zd0'')) 1 = NaN"
    by (rule OPD_elem_nan)
  thus ?thesis
    unfolding OPD_unfold [OF mp_example_defined mp_example_M w] by simp
qed

text \<open>
  Over the reals: with actual values equal to design values, \<open>M\<close>, \<open>wvl\<close> and \<open>zd0\<close>
  non-zero, and every sample of \<open>rho\<close> inside the range where the three square roots are
  real, \<^verbatim>\<open>OPD(mp, rho, ti0, 0, wvl, zd0)\<close> is 0 at every sample.
\<close>

lemma OPD_zero_reals:
  assumes "mp_defined mp"
    and "the (mp ''ni'') = the (mp ''ni0'')" "the (mp ''ng'') = the (mp ''ng0'')"
    and "the (mp ''tg'') = the (mp ''tg0'')"
    and "the (mp ''M'') \<noteq> 0" "wvl \<noteq> 0" "the (mp ''zd0'') \<noteq> 0"
    and "\<forall>r \<in> set rho. (the (mp ''NA''))\<^sup>2 * r\<^sup>2 \<le> (the (mp ''ns''))\<^sup>2
            \<and> (the (mp ''NA''))\<^sup>2 * r\<^sup>2 \<le> (the (mp ''ni0''))\<^sup>2
            \<and> (the (mp ''NA''))\<^sup>2 * r\<^sup>2 \<le> (the (mp ''ng0''))\<^sup>2"
  shows "OPD mp rho (the (mp ''ti0'')) 0 wvl (the (mp ''zd0'')) = Inr (map (\<lambda>r. Fin 0) rho)"
proof -
  have "\<And>r. r \<in> set rho \<Longrightarrow>
     OPD_elem (env_of mp wvl) (the (mp ''ti0'')) 0 (the (mp ''zd0'')) r = Fin 0"
    using assms(2-8)
    by (simp add: OPD_elem_spec OPD_spec_def OPD_sample_spec_def OPD_immersion_spec_def
        OPD_coverslip_spec_def OPD_defocus_spec_def fsub_def not_less)
  thus ?thesis
    unfolding OPD_unfold [OF assms(1,5,6)] by simp
qed

subsection \<open>The radial transform and the normalisation of gLZRScan\<close>

lemma fdiv_zero_not_fin: "\<not> is_fin (fdiv x (Fin 0))"
  by (cases x) (simp_all add: finf_def)

lemma fdiv_NaN_right: "fdiv x NaN = NaN"
  by (cases x) simp_all

lemma fsub_self_sq: "fmul sf sf = fmul b b \<Longrightarrow>
    radial_denom sf b = Fin 0 \<or> radial_denom sf b = NaN"
  unfolding radial_denom_def fsub_def
  by (cases "fmul b b") (simp_all)

text \<open>
  C2, as stated, fails. Each entry of \<open>R\<close> in \<^verbatim>\<open>gLZRScan\<close> is \<open>radial_R sf b max_rho\<close>:
  the numerator divided by \<open>sf * sf - b * b\<close>, with no special case. At \<open>sf = b = 1\<close>
  the entry is \<open>0 / 0\<close>, that is NaN, and not the finite limit.
\<close>

theorem radial_R_singular_counterexample: "radial_R (Fin 1) (Fin 1) 1 = NaN"
  by (simp add: radial_R_def radial_num_def radial_denom_def fsub_def)

text \<open>
  C2, amended. Whenever \<open>sf * sf = b * b\<close> the entry of \<open>R\<close> is evaluated by the same
  direct division and is not a finite number (NaN or an infinity).
\<close>

theorem radial_R_singular:
  assumes "fmul sf sf = fmul b b"
  shows "\<not> is_fin (radial_R sf b max_rho)"
proof -
  from fsub_self_sq [OF assms] show ?thesis
  proof
    assume "radial_denom sf b = Fin 0"
    thus ?thesis by (simp add: radial_R_def fdiv_zero_not_fin)
  next
    assume "radial_denom sf b = NaN"
    thus ?thesis by (simp add: radial_R_def fdiv_NaN_right)
  qed
qed

theorem radial_R_singular_witness:
  "fmul (Fin 2) (Fin 2) = fmul (Fin (- 2)) (Fin (- 2)) \<and> \<not> is_fin (radial_R (Fin 2) (Fin (- 2)) 1)"
  using radial_R_singular [of "Fin 2" "Fin (- 2)" 1] by simp

lemma radial_R_regular:
  assumes "x * x \<noteq> y * y"
  shows "radial_R (Fin x) (Fin y) max_rho =
     Fin ((x * bessel_j1 (x * max_rho) * bessel_j0 (y * max_rho) * max_rho
           - y * bessel_j0 (x * max_rho) * bessel_j1 (y * max_rho) * max_rho) / (x * x - y * y))"
  using assms by (simp add: radial_R_def radial_num_def radial_denom_def fsub_def)

text \<open>
  C3, as stated, fails: the normalisation step of \<^verbatim>\<open>gLZRScan\<close> on an all-dark grid
  raises nothing and returns NaN in every position.
\<close>

theorem normalize_zero_counterexample: "normalize_grid [[Fin 0, Fin 0]] = Inr [[NaN, NaN]]"
  by (simp add: normalize_grid_def amax_def fmax_def bindE_def)

lemma normalize_grid_never_typed:
  "normalize_grid g = (if concat g = [] then Inl ValueError
       else Inr (map (map (\<lambda>x. fdiv x (foldl fmax (hd (concat g)) (tl (concat g))))) g))"
proof (cases "concat g")
  case Nil
  thus ?thesis
    by (simp add: normalize_grid_def amax_def bindE_def del: concat_eq_Nil_conv)
next
  case (Cons x xs)
  thus ?thesis
    by (simp add: normalize_grid_def amax_def bindE_def del: concat_eq_Nil_conv)
qed

text \<open>
  C3, amended. When the maximum of the computed grid is zero, the normalisation returns
  normally: every entry is divided by zero, and no entry of the result is finite.
\<close>

theorem normalize_zero_max:
  assumes "amax g = Inr (Fin 0)"
  shows "normalize_grid g = Inr (map (map (\<lambda>x. fdiv x (Fin 0))) g)
         \<and> list_all (list_all (\<lambda>x. \<not> is_fin x)) (map (map (\<lambda>x. fdiv x (Fin 0))) g)"
  using assms
  by (simp add: normalize_grid_def bindE_def list_all_iff fdiv_zero_not_fin)

theorem normalize_zero_max_witness:
  "amax [[Fin 0], [Fin 0]] = Inr (Fin 0)
   \<and> normalize_grid [[Fin 0], [Fin 0]] = Inr [[NaN], [NaN]]"
proof -
  have a: "amax [[Fin 0], [Fin 0]] = Inr (Fin 0)" by (simp add: amax_def fmax_def)
  show ?thesis using a normalize_zero_max [OF a] by simp
qed

lemma gLZRScan_normalise:
  "gLZRScan lstsq mp pz rv zd zv True wvl =
     bindE (gLZRScan lstsq mp pz rv zd zv False wvl) normalize_grid"
  unfolding gLZRScan_def Let_def
  by (simp add: bindE_def split: sum.splits prod.splits)

subsection \<open>The Cartesian projection and the focal scan\<close>

lemma calcRv_rv_of: "dxy \<noteq> 0 \<Longrightarrow> calcRv dxy xy_size 2 = Inr (rv_of dxy xy_size)"
  unfolding rv_of_def by (rule calcRv_eq)

lemma rv_of_length: "length (rv_of dxy xy_size) = rv_len xy_size"
  by (simp add: rv_of_def)

lemma rv_of_nth: "i < rv_len xy_size \<Longrightarrow> rv_of dxy xy_size ! i = real i * (dxy / 2)"
  by (simp add: rv_of_def)

lemma rv_of_sorted: "0 < dxy \<Longrightarrow> sorted (rv_of dxy xy_size)"
  unfolding rv_of_def sorted_iff_nth_mono
  by (simp add: mult_right_mono)

lemma rv_of_hd: "hd (rv_of dxy xy_size) = 0"
proof -
  have "rv_of dxy xy_size \<noteq> []" using rv_len_pos [of xy_size] by (simp add: rv_of_def)
  hence "hd (rv_of dxy xy_size) = rv_of dxy xy_size ! 0" by (rule hd_conv_nth)
  thus ?thesis using rv_len_pos [of xy_size] by (simp add: rv_of_nth)
qed

lemma rv_of_last: "last (rv_of dxy xy_size) = real (rv_len xy_size - 1) * (dxy / 2)"
proof -
  have n: "rv_of dxy xy_size \<noteq> []" using rv_len_pos [of xy_size] by (simp add: rv_of_def)
  have "last (rv_of dxy xy_size) = rv_of dxy xy_size ! (length (rv_of dxy xy_size) - 1)"
    by (rule last_conv_nth [OF n])
  thus ?thesis using rv_len_pos [of xy_size] by (simp add: rv_of_nth rv_of_length)
qed

lemma pixel_offset_sq:
  assumes "i < nat n"
  shows "(real i + 0.5 - real_of_int n * 0.5) * (real i + 0.5 - real_of_int n * 0.5)
           \<le> (real_of_int n * 0.5) * (real_of_int n * 0.5)"
proof -
  define t where "t = real i + 0.5 - real_of_int n * 0.5"
  define h where "h = real_of_int n * 0.5"
  have "real i + 1 \<le> real_of_int n" using assms by linarith
  hence a: "t \<le> h" and b: "- h \<le> t" unfolding t_def h_def by simp_all
  hence "\<bar>t\<bar> \<le> \<bar>h\<bar>" by simp
  hence "t * t \<le> h * h" by (rule abs_le_square_iff [THEN iffD1, unfolded power2_eq_square])
  thus ?thesis unfolding t_def h_def .
qed

lemma r_pixel_nonneg: "0 \<le> dxy \<Longrightarrow> 0 \<le> r_pixel dxy xy_size i j"
  by (simp add: r_pixel_def Let_def)

lemma r_pixel_le:
  assumes "0 \<le> dxy" "i < nat xy_size" "j < nat xy_size"
  shows "r_pixel dxy xy_size i j \<le> dxy * sqrt (0.5 * real_of_int xy_size * real_of_int xy_size)"
proof -
  have "(real j + 0.5 - real_of_int xy_size * 0.5) * (real j + 0.5 - real_of_int xy_size * 0.5)
      + (real i + 0.5 - real_of_int xy_size * 0.5) * (real i + 0.5 - real_of_int xy_size * 0.5)
      \<le> 0.5 * real_of_int xy_size * real_of_int xy_size"
    using pixel_offset_sq [OF assms(2)] pixel_offset_sq [OF assms(3)] by (simp add: algebra_simps)
  hence "sqrt ((real j + 0.5 - real_of_int xy_size * 0.5) * (real j + 0.5 - real_of_int xy_size * 0.5)
      + (real i + 0.5 - real_of_int xy_size * 0.5) * (real i + 0.5 - real_of_int xy_size * 0.5))
      \<le> sqrt (0.5 * real_of_int xy_size * real_of_int xy_size)"
    by (rule real_sqrt_le_mono)
  thus ?thesis unfolding r_pixel_def Let_def using assms(1) by (rule mult_left_mono)
qed

lemma r_pixel_in_range:
  assumes "0 \<le> dxy" "i < nat xy_size" "j < nat xy_size"
  shows "hd (rv_of dxy xy_size) \<le> r_pixel dxy xy_size i j"
    and "r_pixel dxy xy_size i j \<le> last (rv_of dxy xy_size)"
proof -
  show "hd (rv_of dxy xy_size) \<le> r_pixel dxy xy_size i j"
    using r_pixel_nonneg [OF assms(1)] by (simp add: rv_of_hd)
  define s where "s = sqrt (0.5 * real_of_int xy_size * real_of_int xy_size)"
  have a: "r_pixel dxy xy_size i j \<le> dxy * s" unfolding s_def by (rule r_pixel_le [OF assms])
  have "2 * s + 2 \<le> real (rv_len xy_size)" unfolding s_def by (rule rv_len_ge)
  moreover have "real (rv_len xy_size - 1) = real (rv_len xy_size) - 1"
    using rv_len_pos [of xy_size] by simp
  ultimately have "s \<le> real (rv_len xy_size - 1) / 2" by linarith
  hence "dxy * s \<le> dxy * (real (rv_len xy_size - 1) / 2)" using assms(1) by (rule mult_left_mono)
  hence "dxy * s \<le> last (rv_of dxy xy_size)" by (simp add: rv_of_last algebra_simps)
  with a show "r_pixel dxy xy_size i j \<le> last (rv_of dxy xy_size)" by linarith
qed

lemma mapE_ok:
  assumes "\<forall>x \<in> set xs. f x = Inr (g x)"
  shows "mapE f xs = Inr (map g xs)"
  using assms by (induction xs) (simp_all add: bindE_def)

lemma interp1d_sorted:
  assumes "sorted x" "length x = length y" "x \<noteq> []"
  shows "interp1d x y = Inr (zip x y)"
proof -
  have "sorted (map fst (zip x y))" using assms by simp
  hence "sort_key fst (zip x y) = zip x y" by (rule sort_key_id_if_sorted)
  thus ?thesis using assms by (simp add: interp1d_def)
qed

lemma zip_hd_last:
  assumes "length x = length y" "x \<noteq> []"
  shows "fst (hd (zip x y)) = hd x" "fst (last (zip x y)) = last x"
proof -
  have z: "zip x y \<noteq> []" using assms by (cases x; cases y) simp_all
  have "map fst (zip x y) = x" using assms by simp
  thus "fst (hd (zip x y)) = hd x" using z by (metis hd_map)
  show "fst (last (zip x y)) = last x" using \<open>map fst (zip x y) = x\<close> z by (metis last_map)
qed

lemma interp_call_ok:
  assumes "\<forall>x \<in> set x_new. fst (hd table) \<le> x \<and> x \<le> fst (last table)"
  shows "interp_call table x_new = Inr (map (interp_linear table) x_new)"
  using assms by (auto simp: interp_call_def not_less)

lemma reshape2_shape:
  assumes "length v = n * n"
  shows "shape2 (reshape2 n v) n n"
proof -
  have "\<And>i. i < n \<Longrightarrow> length (take n (drop (i * n) v)) = n"
  proof -
    fix i assume i: "i < n"
    hence "Suc i * n \<le> n * n" by (metis Suc_leI mult_le_mono1)
    hence "n \<le> n * n - i * n" by simp
    thus "length (take n (drop (i * n) v)) = n" using assms by simp
  qed
  thus ?thesis by (simp add: shape2_def reshape2_def list_all_iff)
qed

lemma r_flat_length: "length (r_flat_of dxy xy_size) = nat xy_size * nat xy_size"
  by (simp add: r_flat_of_def length_concat comp_def sum_list_triv)

lemma r_flat_set:
  "x \<in> set (r_flat_of dxy xy_size) \<Longrightarrow>
     \<exists>i j. i < nat xy_size \<and> j < nat xy_size \<and> x = r_pixel dxy xy_size i j"
  by (fastforce simp: r_flat_of_def)

lemma psfRZToPSFXYZ_ok:
  assumes "0 < dxy" "0 \<le> xy_size"
    and "list_all (\<lambda>row. length row = rv_len xy_size) PSF_rz"
  shows "\<exists>vol. psfRZToPSFXYZ dxy xy_size (rv_of dxy xy_size) PSF_rz = Inr vol
           \<and> shape3 vol (length PSF_rz) (nat xy_size)"
proof -
  let ?rv = "rv_of dxy xy_size"
  let ?n = "nat xy_size"
  let ?g = "\<lambda>row. reshape2 ?n (map (interp_linear (zip ?rv row)) (r_flat_of dxy xy_size))"
  let ?f = "\<lambda>row. bindE (interp1d ?rv row) (\<lambda>psf_rz_interp.
                   bindE (interp_call psf_rz_interp (r_flat_of dxy xy_size)) (\<lambda>v.
                     Inr (reshape2 ?n v)))"
  have ne: "?rv \<noteq> []" using rv_len_pos [of xy_size] by (simp add: rv_of_def)
  have srt: "sorted ?rv" using assms(1) by (rule rv_of_sorted)
  have dx: "0 \<le> dxy" using assms(1) by simp
  have step: "\<forall>row \<in> set PSF_rz. ?f row = Inr (?g row)"
  proof
    fix row assume "row \<in> set PSF_rz"
    hence len: "length ?rv = length row" using assms(3) by (simp add: list_all_iff rv_of_length)
    have t: "interp1d ?rv row = Inr (zip ?rv row)" by (rule interp1d_sorted [OF srt len ne])
    have "\<forall>x \<in> set (r_flat_of dxy xy_size).
            fst (hd (zip ?rv row)) \<le> x \<and> x \<le> fst (last (zip ?rv row))"
    proof
      fix x assume "x \<in> set (r_flat_of dxy xy_size)"
      then obtain i j where ij: "i < ?n" "j < ?n" "x = r_pixel dxy xy_size i j"
        using r_flat_set by blast
      show "fst (hd (zip ?rv row)) \<le> x \<and> x \<le> fst (last (zip ?rv row))"
        using r_pixel_in_range [OF dx ij(1,2)] ij(3) by (simp add: zip_hd_last [OF len ne])
    qed
    hence c: "interp_call (zip ?rv row) (r_flat_of dxy xy_size)
        = Inr (map (interp_linear (zip ?rv row)) (r_flat_of dxy xy_size))"
      by (rule interp_call_ok)
    show "?f row = Inr (?g row)" by (simp only: t c bindE_Inr)
  qed
  have e: "psfRZToPSFXYZ dxy xy_size ?rv PSF_rz = mapE ?f PSF_rz"
    using assms(2) by (simp add: psfRZToPSFXYZ_def Let_def r_flat_of_def)
  have m: "mapE ?f PSF_rz = Inr (map ?g PSF_rz)" by (rule mapE_ok [OF step])
  have "\<And>row. shape2 (?g row) ?n ?n"
    by (rule reshape2_shape) (simp add: r_flat_length)
  hence "shape3 (map ?g PSF_rz) (length PSF_rz) ?n"
    by (simp add: shape3_def list_all_iff)
  thus ?thesis using e m by simp
qed

text \<open>
  C9. For a positive pixel size and at least one pixel, every pixel-centre radius
  \<open>r_pixel dxy xy_size i j\<close> lies between the first and the last element of
  \<^verbatim>\<open>calcRv(dxy, xy_size)\<close>; hence \<^verbatim>\<open>psfRZToPSFXYZ\<close>, given that radius vector and any
  grid with one value per radius, never raises the out-of-range ValueError of the
  interpolation: it returns a volume.
\<close>

theorem pixel_radius_within_rv:
  assumes "0 < dxy" "1 \<le> xy_size" "calcRv dxy xy_size 2 = Inr rv"
  shows "(\<forall>i < nat xy_size. \<forall>j < nat xy_size.
            hd rv \<le> r_pixel dxy xy_size i j \<and> r_pixel dxy xy_size i j \<le> last rv)
         \<and> (\<forall>PSF_rz. list_all (\<lambda>row. length row = length rv) PSF_rz \<longrightarrow>
               (\<exists>vol. psfRZToPSFXYZ dxy xy_size rv PSF_rz = Inr vol))"
proof -
  have rv: "rv = rv_of dxy xy_size" using assms(1,3) calcRv_rv_of [of dxy xy_size] by simp
  have dx: "0 \<le> dxy" and xs: "0 \<le> xy_size" using assms(1,2) by simp_all
  have a: "\<forall>i < nat xy_size. \<forall>j < nat xy_size.
            hd rv \<le> r_pixel dxy xy_size i j \<and> r_pixel dxy xy_size i j \<le> last rv"
    unfolding rv using r_pixel_in_range [OF dx] by blast
  have b: "\<forall>PSF_rz. list_all (\<lambda>row. length row = length rv) PSF_rz \<longrightarrow>
               (\<exists>vol. psfRZToPSFXYZ dxy xy_size rv PSF_rz = Inr vol)"
    unfolding rv rv_of_length using psfRZToPSFXYZ_ok [OF assms(1) xs] by blast
  from a b show ?thesis by blast
qed

theorem pixel_radius_within_rv_witness:
  "(0::real) < 0.1 \<and> (1::int) \<le> 10 \<and> calcRv 0.1 10 2 = Inr (rv_of 0.1 10)
   \<and> hd (rv_of 0.1 10) \<le> r_pixel 0.1 10 9 9 \<and> r_pixel 0.1 10 9 9 \<le> last (rv_of 0.1 10)"
proof -
  have d: "(0::real) < 0.1" by simp
  have x: "(1::int) \<le> 10" by simp
  have c: "calcRv 0.1 10 2 = Inr (rv_of 0.1 10)" by (rule calcRv_rv_of) simp
  have "hd (rv_of 0.1 10) \<le> r_pixel 0.1 10 9 9 \<and> r_pixel 0.1 10 9 9 \<le> last (rv_of 0.1 10)"
    using pixel_radius_within_rv [OF d x c] by simp
  with d x c show ?thesis by blast
qed

lemma linspace_length: "length (linspace a b n) = n"
  by (simp add: linspace_def)

lemma linspace_range:
  assumes "0 \<le> b" "r \<in> set (linspace 0 b n)"
  shows "0 \<le> r \<and> r \<le> b"
proof -
  from assms(2) obtain i where i: "i < n" and r: "r = real i * (b / real (n - 1))"
    by (auto simp: linspace_def)
  show ?thesis
  proof (cases "n - 1 = 0")
    case True
    hence "i = 0" using i by simp
    thus ?thesis using r assms(1) by simp
  next
    case False
    hence p: "0 < real (n - 1)" by simp
    have "real i \<le> real (n - 1)" using i by simp
    hence "real i / real (n - 1) \<le> 1" using p by simp
    hence "b * (real i / real (n - 1)) \<le> b * 1" using assms(1) by (rule mult_left_mono)
    moreover have "0 \<le> b * (real i / real (n - 1))" using assms(1) by simp
    moreover have "r = b * (real i / real (n - 1))" using r by simp
    ultimately show ?thesis by simp
  qed
qed

lemma sq_arg_nonneg:
  assumes "0 < (NA::real)" "0 \<le> r" "NA * r \<le> n"
  shows "\<not> n * n - NA * NA * r * r < 0"
proof -
  have "0 \<le> NA * r" using assms(1,2) by simp
  hence "(NA * r) * (NA * r) \<le> n * n" using assms(3) by (simp add: mult_mono)
  thus ?thesis by (simp add: algebra_simps)
qed

lemma OPD_elem_fin:
  assumes "\<not> e_ns e * e_ns e - e_NA e * e_NA e * r * r < 0"
    and "\<not> e_ni e * e_ni e - e_NA e * e_NA e * r * r < 0"
    and "\<not> e_ni0 e * e_ni0 e - e_NA e * e_NA e * r * r < 0"
    and "\<not> e_ng e * e_ng e - e_NA e * e_NA e * r * r < 0"
    and "\<not> e_ng0 e * e_ng0 e - e_NA e * e_NA e * r * r < 0"
    and "e_zd0 e \<noteq> 0" "zd \<noteq> 0"
  shows "is_fin (OPD_elem e ti pz zd r)"
  using assms
  by (simp add: OPD_elem_def OPDs_def OPDi_def OPDg_def OPDt_def fsub_def)

lemma min6_le:
  "min_list_py [a, b, c, d, e, f] \<le> a" "min_list_py [a, b, c, d, e, f] \<le> b"
  "min_list_py [a, b, c, d, e, f] \<le> c" "min_list_py [a, b, c, d, e, f] \<le> d"
  "min_list_py [a, b, c, d, e, f] \<le> e" "min_list_py [a, b, c, d, e, f] \<le> f"
  by (simp_all add: min_list_py_def min_le_iff_disj)

lemma min6_pos:
  assumes "0 < (a::real)" "0 < b" "0 < c" "0 < d" "0 < e" "0 < f"
  shows "0 < min_list_py [a, b, c, d, e, f]"
  using assms by (simp add: min_list_py_def)

lemma OPD_elem_fin_valid:
  assumes v: "valid_mp mp" and z: "the (mp ''zd0'') \<noteq> 0" "zd \<noteq> 0"
    and r: "r \<in> set (linspace 0 (max_rho_of mp) n)"
  shows "is_fin (OPD_elem (env_of mp wvl) ti pz zd r)"
proof -
  note p = valid_mp_pos [OF v]
  let ?m = "min_list_py [the (mp ''NA''), the (mp ''ng0''), the (mp ''ng''), the (mp ''ni0''),
            the (mp ''ni''), the (mp ''ns'')]"
  have m0: "0 < ?m" by (rule min6_pos) (rule p)+
  hence "0 \<le> max_rho_of mp" using p(1) by (simp add: max_rho_of_def)
  hence rr: "0 \<le> r \<and> r \<le> max_rho_of mp" using r by (rule linspace_range)
  hence "the (mp ''NA'') * r \<le> the (mp ''NA'') * max_rho_of mp"
    using p(1) by (simp add: mult_left_mono)
  moreover have "the (mp ''NA'') * max_rho_of mp = ?m" using p(1) by (simp add: max_rho_of_def)
  ultimately have le: "the (mp ''NA'') * r \<le> ?m" by simp
  have r0: "0 \<le> r" using rr by simp
  have a: "\<not> the (mp ''ns'') * the (mp ''ns'') - the (mp ''NA'') * the (mp ''NA'') * r * r < 0"
    by (rule sq_arg_nonneg [OF p(1) r0]) (use le min6_le(6) in \<open>rule order_trans\<close>)
  have b: "\<not> the (mp ''ni'') * the (mp ''ni'') - the (mp ''NA'') * the (mp ''NA'') * r * r < 0"
    by (rule sq_arg_nonneg [OF p(1) r0]) (use le min6_le(5) in \<open>rule order_trans\<close>)
  have c: "\<not> the (mp ''ni0'') * the (mp ''ni0'') - the (mp ''NA'') * the (mp ''NA'') * r * r < 0"
    by (rule sq_arg_nonneg [OF p(1) r0]) (use le min6_le(4) in \<open>rule order_trans\<close>)
  have d: "\<not> the (mp ''ng'') * the (mp ''ng'') - the (mp ''NA'') * the (mp ''NA'') * r * r < 0"
    by (rule sq_arg_nonneg [OF p(1) r0]) (use le min6_le(3) in \<open>rule order_trans\<close>)
  have e: "\<not> the (mp ''ng0'') * the (mp ''ng0'') - the (mp ''NA'') * the (mp ''NA'') * r * r < 0"
    by (rule sq_arg_nonneg [OF p(1) r0]) (use le min6_le(2) in \<open>rule order_trans\<close>)
  show ?thesis
    by (rule OPD_elem_fin) (use a b c d e z in \<open>simp_all add: env_of_def\<close>)
qed

lemma transpose_m_length: "length (transpose_m c A) = c"
  by (simp add: transpose_m_def)

lemma transpose_m_rows:
  assumes "\<forall>row \<in> set A. length row = c \<and> list_all P row"
  shows "\<forall>r \<in> set (transpose_m c A). length r = length A \<and> list_all P r"
  using assms by (auto simp: transpose_m_def list_all_iff all_set_conv_all_nth)

lemma broadcast_one: "broadcast (Suc 0) m = Inr m" "broadcast n (Suc 0) = Inr n"
  by (auto simp: broadcast_def)

lemma configure_eq': 
  assumes "mp_defined mp" "the (mp ''NA'') \<noteq> 0"
  shows "configure mp wvl = Inr (sf_of mp wvl, max_rho_of mp)"
  unfolding sf_of_def max_rho_of_def by (rule configure_eq [OF assms])

lemma sf_of_length: "length (sf_of mp wvl) = num_basis"
  by (simp add: sf_of_def)

lemma sf_of_fin: "wvl \<noteq> 0 \<Longrightarrow> sf \<in> set (sf_of mp wvl) \<Longrightarrow> is_fin sf"
  by (auto simp: sf_of_def)

lemma OPD_cols_focal:
  assumes "mp_defined mp" "the (mp ''M'') \<noteq> 0" "wvl \<noteq> 0"
  shows "OPD_cols mp rho ti [pz] wvl [zd] =
     Inr (map (\<lambda>i. map (OPD_elem (env_of mp wvl) (bc ti i) pz zd) rho) [0 ..< length ti])"
  unfolding OPD_cols_def OPD_env_eq [OF assms] bindE_Inr
  by (simp add: broadcast_one bindE_Inr bc_def env_of_def)

lemma is_fin_cases: "is_fin x \<Longrightarrow> \<exists>r. x = Fin r"
  by (cases x) simp_all

lemma J_rows:
  assumes "\<forall>sf \<in> set sfs. is_fin sf"
  shows "\<forall>row \<in> set (map (\<lambda>sf. map (\<lambda>r. fJ0 (fmul sf (Fin r))) rho) sfs).
           length row = length rho \<and> list_all is_fin row"
proof -
  have "\<And>sf r. is_fin sf \<Longrightarrow> is_fin (fJ0 (fmul sf (Fin r)))"
    by (auto dest: is_fin_cases)
  thus ?thesis using assms by (auto simp: list_all_iff)
qed

lemma phase_rows:
  assumes "\<forall>row \<in> set opdt. length row = c \<and> list_all is_fin row"
  shows "\<forall>row \<in> set (map (map cexp_i) opdt). length row = c \<and> list_all cfin row"
proof -
  have "\<And>x. is_fin x \<Longrightarrow> cfin (cexp_i x)"
    by (auto dest: is_fin_cases simp: cfin_def)
  thus ?thesis using assms by (auto simp: list_all_iff)
qed

lemma matdot_shape:
  assumes "length C = inner"
  shows "\<exists>field. matdot inner R C = Inr field \<and> shape2 field (length R) (ncols C)"
  using assms by (simp add: matdot_def shape2_def list_all_iff)

lemma transpose_m_shape: "shape2 (transpose_m c A) c (length A)"
  by (simp add: transpose_m_def shape2_def list_all_iff)

lemma normalize_grid_shape:
  assumes "shape2 g n m" "0 < n" "0 < m"
  shows "\<exists>g'. normalize_grid g = Inr g' \<and> shape2 g' n m"
proof -
  from assms obtain row rest where g: "g = row # rest" by (cases g) (auto simp: shape2_def)
  hence "length row = m" using assms(1) by (simp add: shape2_def)
  hence "row \<noteq> []" using assms(3) by auto
  hence "concat g \<noteq> []" using g by simp
  then obtain x xs where "concat g = x # xs" by (cases "concat g") auto
  hence "normalize_grid g = Inr (map (map (\<lambda>y. fdiv y (foldl fmax x xs))) g)"
    by (simp add: normalize_grid_def amax_def bindE_def)
  moreover have "shape2 (map (map (\<lambda>y. fdiv y (foldl fmax x xs))) g) n m"
    using assms(1) by (simp add: shape2_def list_all_iff)
  ultimately show ?thesis by blast
qed

lemma math_sqrt_pos:
  assumes "0 < (NA::real)"
  shows "math_sqrt (M * M + NA * NA) = Inr (sqrt (M * M + NA * NA))"
    and "sqrt (M * M + NA * NA) \<noteq> 0"
proof -
  have "0 \<le> M * M" by simp
  moreover have "0 < NA * NA" using assms by simp
  ultimately have q: "0 < M * M + NA * NA" by linarith
  hence "\<not> M * M + NA * NA < 0" by linarith
  thus "math_sqrt (M * M + NA * NA) = Inr (sqrt (M * M + NA * NA))"
    unfolding math_sqrt_def by (simp only: if_False)
  have "0 < sqrt (M * M + NA * NA)" using q by (rule real_sqrt_gt_zero)
  thus "sqrt (M * M + NA * NA) \<noteq> 0" by linarith
qed

lemma gLZRScan_focal_run:
  assumes c: "lstsq_contract lstsq" and v: "valid_mp mp"
    and M: "the (mp ''M'') \<noteq> 0" and z0: "the (mp ''zd0'') \<noteq> 0"
    and w: "wvl \<noteq> 0" and z: "zd \<noteq> 0"
  shows "\<exists>PSF. shape2 PSF (length zv) (length rv)
           \<and> gLZRScan lstsq mp [pz] rv [zd] zv normalise wvl =
               (if normalise then normalize_grid PSF else Inr PSF)"
proof -
  note p = valid_mp_pos [OF v]
  note d = p(7)
  note k = mp_defined_keys [OF d]
  have na: "the (mp ''NA'') \<noteq> 0" using p(1) by simp
  define rho where "rho = linspace 0 (max_rho_of mp) rho_samples"
  define ti where "ti = map (\<lambda>z. z + the (mp ''ti0'')) zv"
  define opdt where
    "opdt = map (\<lambda>i. map (OPD_elem (env_of mp wvl) (bc ti i) pz zd) rho) [0 ..< length ti]"
  define A where
    "A = transpose_m rho_samples (map (\<lambda>sf. map (\<lambda>r. fJ0 (fmul sf (Fin r))) rho) (sf_of mp wvl))"
  define B where "B = transpose_m rho_samples (map (map cexp_i) opdt)"
  have lrho: "length rho = rho_samples" by (simp add: rho_def linspace_length)
  have lti: "length ti = length zv" by (simp add: ti_def)
  have c1: "configure mp wvl = Inr (sf_of mp wvl, max_rho_of mp)" by (rule configure_eq' [OF d na])
  have c2: "OPD_cols mp rho ti [pz] wvl [zd] = Inr opdt"
    unfolding opdt_def by (rule OPD_cols_focal [OF d M w])
  have opdt_rows: "\<forall>row \<in> set opdt. length row = rho_samples \<and> list_all is_fin row"
    unfolding opdt_def rho_def
    by (auto simp: list_all_iff linspace_length intro: OPD_elem_fin_valid [OF v z0 z])
  have Arows: "\<forall>r \<in> set A. length r = num_basis \<and> list_all is_fin r"
  proof -
    have "\<forall>sf \<in> set (sf_of mp wvl). is_fin sf" using sf_of_fin [OF w] by blast
    hence "\<forall>row \<in> set (map (\<lambda>sf. map (\<lambda>r. fJ0 (fmul sf (Fin r))) rho) (sf_of mp wvl)).
           length row = rho_samples \<and> list_all is_fin row"
      using J_rows [of "sf_of mp wvl" rho] lrho by simp
    from transpose_m_rows [OF this] show ?thesis by (simp add: A_def sf_of_length)
  qed
  have Brows: "\<forall>r \<in> set B. length r = length zv \<and> list_all cfin r"
  proof -
    have "\<forall>row \<in> set (map (map cexp_i) opdt). length row = rho_samples \<and> list_all cfin row"
      by (rule phase_rows [OF opdt_rows])
    from transpose_m_rows [OF this] show ?thesis by (simp add: B_def opdt_def lti)
  qed
  have "A \<noteq> []"
  proof
    assume "A = []"
    hence "length A = 0" by simp
    thus False by (simp add: A_def transpose_m_length rho_samples_def)
  qed
  moreover have "length A = length B" by (simp add: A_def B_def transpose_m_length)
  ultimately have "\<exists>X. lstsq A B = Inr X \<and> length X = num_basis
      \<and> (\<forall>row \<in> set X. length row = length zv)"
    using c Arows Brows unfolding lstsq_contract_def by blast
  then obtain C where c3: "lstsq A B = Inr C" and lC: "length C = num_basis"
    and Crows: "\<forall>row \<in> set C. length row = length zv" by blast
  have "C \<noteq> []" using lC by (auto simp: num_basis_def)
  then obtain r0 rs where "C = r0 # rs" by (cases C) auto
  hence nC: "ncols C = length zv" using Crows by (simp add: ncols_def)
  define R where
    "R = map (\<lambda>bj. map (\<lambda>sf. radial_R sf bj (max_rho_of mp)) (sf_of mp wvl))
           (map (\<lambda>j. fdiv (Fin (2 * pi / wvl
                    * (the (mp ''NA'') * the (mp ''zd0'')
                        / sqrt (the (mp ''M'') * the (mp ''M'') + the (mp ''NA'') * the (mp ''NA'')))
                    * bc (map (\<lambda>r. r * the (mp ''M'')) rv) j)) (Fin (bc [zd] j)))
              [0 ..< length rv])"
  have lR: "length R = length rv" by (simp add: R_def)
  obtain field where c4: "matdot (length (sf_of mp wvl)) R C = Inr field"
    and sh: "shape2 field (length rv) (length zv)"
    using matdot_shape [of C "length (sf_of mp wvl)" R] lC lR nC by (auto simp: sf_of_length)
  define PSF where
    "PSF = transpose_m (ncols C) (map (map (\<lambda>z. fmul (cabs z) (cabs z))) field)"
  have shP: "shape2 PSF (length zv) (length rv)"
    using transpose_m_shape [of "ncols C" "map (map (\<lambda>z. fmul (cabs z) (cabs z))) field"] sh nC
    by (simp add: PSF_def shape2_def)
  have s2: "py_div (the (mp ''NA'') * the (mp ''zd0''))
        (sqrt (the (mp ''M'') * the (mp ''M'') + the (mp ''NA'') * the (mp ''NA'')))
      = Inr (the (mp ''NA'') * the (mp ''zd0'')
        / sqrt (the (mp ''M'') * the (mp ''M'') + the (mp ''NA'') * the (mp ''NA'')))"
    unfolding py_div_def using math_sqrt_pos(2) [OF p(1)] by (simp only: if_False)
  have s3: "py_div (2 * pi) wvl = Inr (2 * pi / wvl)"
    unfolding py_div_def using w by (simp only: if_False)
  have bb: "broadcast (length (map (\<lambda>r. r * the (mp ''M'')) rv)) (length [zd]) = Inr (length rv)"
    by (simp add: broadcast_one)
  have g: "getp mp ''NA'' = Inr (the (mp ''NA''))" "getp mp ''zd0'' = Inr (the (mp ''zd0''))"
    "getp mp ''M'' = Inr (the (mp ''M''))" "getp mp ''ti0'' = Inr (the (mp ''ti0''))"
    using k by (simp_all add: getp_the)
  have run: "gLZRScan lstsq mp [pz] rv [zd] zv normalise wvl =
      (if normalise then normalize_grid PSF else Inr PSF)"
    unfolding gLZRScan_def
    by (simp only: c1 bindE_Inr prod.case Let_def g math_sqrt_pos(1) [OF p(1)] s2 s3
        c2 [unfolded rho_def ti_def] c3 [unfolded A_def B_def rho_def]
        bb c4 [unfolded R_def] PSF_def)
  from shP run show ?thesis by blast
qed

lemma gLZRScan_focal_shape:
  assumes c: "lstsq_contract lstsq" and v: "valid_mp mp"
    and M: "the (mp ''M'') \<noteq> 0" and z0: "the (mp ''zd0'') \<noteq> 0"
    and w: "wvl \<noteq> 0" and z: "zd \<noteq> 0"
    and e: "(zv \<noteq> [] \<and> rv \<noteq> []) \<or> \<not> normalise"
  shows "\<exists>g. gLZRScan lstsq mp [pz] rv [zd] zv normalise wvl = Inr g
           \<and> shape2 g (length zv) (length rv)"
proof -
  from gLZRScan_focal_run [OF c v M z0 w z] obtain PSF where
    shP: "shape2 PSF (length zv) (length rv)"
    and run: "gLZRScan lstsq mp [pz] rv [zd] zv normalise wvl =
               (if normalise then normalize_grid PSF else Inr PSF)" by blast
  show ?thesis
  proof (cases normalise)
    case False
    thus ?thesis using run shP by simp
  next
    case True
    hence "0 < length zv" "0 < length rv" using e by simp_all
    from normalize_grid_shape [OF shP this] show ?thesis using run True by simp
  qed
qed

lemma gLZRScan_focal_empty:
  assumes c: "lstsq_contract lstsq" and v: "valid_mp mp"
    and M: "the (mp ''M'') \<noteq> 0" and z0: "the (mp ''zd0'') \<noteq> 0"
    and w: "wvl \<noteq> 0" and z: "zd \<noteq> 0"
  shows "gLZRScan lstsq mp [pz] rv [zd] [] True wvl = Inl ValueError"
proof -
  from gLZRScan_focal_run [OF c v M z0 w z, of "[]" rv pz True] obtain PSF where
    shP: "shape2 PSF 0 (length rv)"
    and run: "gLZRScan lstsq mp [pz] rv [zd] [] True wvl = normalize_grid PSF" by auto
  have "PSF = []" using shP by (simp add: shape2_def)
  thus ?thesis using run by (simp add: normalize_grid_def amax_def bindE_def)
qed

lemma lstsq_zero_contract: "lstsq_contract lstsq_zero"
  unfolding lstsq_contract_def
proof (intro allI impI)
  fix A :: "fval list list" and B :: "cval list list" and n k
  assume h: "A \<noteq> [] \<and> length A = length B
        \<and> (\<forall>row \<in> set A. length row = n \<and> list_all is_fin row)
        \<and> (\<forall>row \<in> set B. length row = k \<and> list_all cfin row)"
  hence "B \<noteq> []" by auto
  then obtain b bs where B: "B = b # bs" by (cases B) auto
  from h obtain a as where A: "A = a # as" by (cases A) auto
  have "ncols A = n" using h A by (simp add: ncols_def)
  moreover have "ncols B = k" using h B by (simp add: ncols_def)
  ultimately show "\<exists>X. lstsq_zero A B = Inr X \<and> length X = n \<and> (\<forall>row \<in> set X. length row = k)"
    by (simp add: lstsq_zero_def)
qed

lemma default_zd_ok:
  assumes "mp_defined mp" "the (mp ''zd0'') \<noteq> 0" "zd \<noteq> Some 0"
  shows "\<exists>z. default_zd mp zd = Inr z \<and> z \<noteq> 0"
  using assms mp_defined_keys(11) [OF assms(1)]
  by (cases zd) (simp_all add: default_zd_def getp_the)

text \<open>
  Over the reals: for a valid parameter set with non-zero \<open>M\<close> and \<open>zd0\<close>, a positive
  pixel size, at least one pixel, a non-zero wavelength and camera position, and a
  least-squares routine that meets its contract, \<^verbatim>\<open>gLXYZFocalScan\<close> returns a volume of
  shape \<open>(length zv, xy_size, xy_size)\<close>, the axial dimension first, provided \<open>zv\<close> is
  not empty or the result is not normalised.
\<close>

lemma gLXYZFocalScan_shape_reals:
  assumes "lstsq_contract lstsq" "valid_mp mp"
    and "the (mp ''M'') \<noteq> 0" "the (mp ''zd0'') \<noteq> 0"
    and "0 < dxy" "1 \<le> xy_size" "wvl \<noteq> 0" "zd \<noteq> Some 0"
    and "zv \<noteq> [] \<or> \<not> normalise"
  shows "\<exists>vol. gLXYZFocalScan lstsq mp dxy xy_size zv normalise pz wvl zd = Inr vol
           \<and> shape3 vol (length zv) (nat xy_size)"
proof -
  let ?rv = "rv_of dxy xy_size"
  have d: "mp_defined mp" using assms(2) by (simp add: valid_mp_def)
  have rv: "calcRv dxy xy_size 2 = Inr ?rv" using assms(5) by (simp add: calcRv_rv_of)
  obtain z where z: "default_zd mp zd = Inr z" "z \<noteq> 0"
    using default_zd_ok [OF d assms(4,8)] by blast
  have ne: "?rv \<noteq> []" using rv_len_pos [of xy_size] by (simp add: rv_of_def)
  hence e: "(zv \<noteq> [] \<and> ?rv \<noteq> []) \<or> \<not> normalise" using assms(9) by blast
  obtain g where g: "gLZRScan lstsq mp [pz] ?rv [z] zv normalise wvl = Inr g"
    and sh: "shape2 g (length zv) (length ?rv)"
    using gLZRScan_focal_shape [OF assms(1,2,3,4,7) z(2) e] by blast
  have rows: "list_all (\<lambda>row. length row = rv_len xy_size) g"
    using sh by (simp add: shape2_def rv_of_length)
  have xs: "0 \<le> xy_size" using assms(6) by simp
  obtain vol where vol: "psfRZToPSFXYZ dxy xy_size ?rv g = Inr vol"
    and sv: "shape3 vol (length g) (nat xy_size)"
    using psfRZToPSFXYZ_ok [OF assms(5) xs rows] by blast
  have "gLXYZFocalScan lstsq mp dxy xy_size zv normalise pz wvl zd = Inr vol"
    unfolding gLXYZFocalScan_def gLZRFocalScan_def
    by (simp only: rv bindE_Inr z(1) g vol)
  moreover have "length g = length zv" using sh by (simp add: shape2_def)
  ultimately show ?thesis using sv by simp
qed

lemma mp_example_zd0: "the (mp_example ''zd0'') \<noteq> 0"
  by (simp add: mp_example_def)

text \<open>
  C8. The docstring of \<^verbatim>\<open>gLXYZFocalScan\<close> promises an array of size
  \<open>(zv.size, xy_size, xy_size)\<close>. For an array \<open>zv\<close> of length 0 the call with
  \<^verbatim>\<open>normalize = False\<close> returns the volume of shape \<open>(0, 3, 3)\<close>, and the call with
  the default \<^verbatim>\<open>normalize = True\<close> raises ValueError: \<^verbatim>\<open>numpy.max\<close> of the empty grid
  has no value. (On a right-hand side without columns the least-squares routine returns
  the matrix with \<open>num_basis\<close> rows and no column; \<open>lstsq_zero\<close> is that matrix.)
\<close>

theorem gLXYZFocalScan_empty_zv:
  "gLXYZFocalScan lstsq_zero mp_example 0.1 3 [] True 0 0.6 None = Inl ValueError
   \<and> gLXYZFocalScan lstsq_zero mp_example 0.1 3 [] False 0 0.6 None = Inr []"
proof -
  have w: "(0.6::real) \<noteq> 0" by simp
  have rv: "calcRv 0.1 3 2 = Inr (rv_of 0.1 3)" by (rule calcRv_rv_of) simp
  have z: "default_zd mp_example None = Inr (the (mp_example ''zd0''))"
    using mp_defined_keys(11) [OF mp_example_defined] by (simp add: default_zd_def getp_the)
  have g: "gLZRScan lstsq_zero mp_example [0] (rv_of 0.1 3) [the (mp_example ''zd0'')] [] True 0.6
      = Inl ValueError"
    by (rule gLZRScan_focal_empty [OF lstsq_zero_contract mp_example_valid mp_example_M
        mp_example_zd0 w mp_example_zd0])
  have t: "gLXYZFocalScan lstsq_zero mp_example 0.1 3 [] True 0 0.6 None = Inl ValueError"
    unfolding gLXYZFocalScan_def gLZRFocalScan_def
    by (simp only: rv bindE_Inr z g bindE_Inl)
  obtain h where h: "gLZRScan lstsq_zero mp_example [0] (rv_of 0.1 3) [the (mp_example ''zd0'')] []
      False 0.6 = Inr h" and sh: "shape2 h (length ([] :: real list)) (length (rv_of 0.1 3))"
    using gLZRScan_focal_shape [OF lstsq_zero_contract mp_example_valid mp_example_M
        mp_example_zd0 w mp_example_zd0, of "[]" "rv_of 0.1 3" False 0] by auto
  have "h = []" using sh by (simp add: shape2_def)
  hence f: "gLXYZFocalScan lstsq_zero mp_example 0.1 3 [] False 0 0.6 None = Inr []"
    unfolding gLXYZFocalScan_def gLZRFocalScan_def
    by (simp only: rv bindE_Inr z h) (simp add: psfRZToPSFXYZ_def)
  from t f show ?thesis by simp
qed

subsection \<open>Frame properties of the store-level operations\<close>

lemma frames_return: "Q x \<Longrightarrow> frames n (returnS x) Q"
  by (simp add: frames_def returnS_def)

lemma frames_liftE: "frames n (liftE r) (\<lambda>x. True)"
  by (simp add: frames_def liftE_def)

lemma frames_with_mp: "frames n (with_mp f) (\<lambda>x. True)"
  by (simp add: frames_def with_mp_def)

lemma frames_alloc: "frames n (alloc b) (\<lambda>a. n \<le> a)"
  by (simp add: frames_def alloc_def)

lemma frames_load: "frames n (load a) (\<lambda>x. True)"
  by (simp add: frames_def load_def)

lemma frames_store: "n \<le> a \<Longrightarrow> frames n (store a b) (\<lambda>x. True)"
  by (simp add: frames_def store_def)

lemma bindS_Inl: "fst (m s) = Inl e \<Longrightarrow> bindS m f s = (Inl e, snd (m s))"
  by (cases "m s") (simp add: bindS_def)

lemma bindS_Inr: "fst (m s) = Inr x \<Longrightarrow> bindS m f s = f x (snd (m s))"
  by (cases "m s") (simp add: bindS_def)

lemma frames_bind:
  assumes "frames n m P" and "\<And>x. P x \<Longrightarrow> frames n (f x) Q"
  shows "frames n (bindS m f) Q"
  unfolding frames_def
proof (intro allI impI)
  fix s :: pystate assume n: "n \<le> length (heap s)"
  from assms(1) n have a: "mp_obj (snd (m s)) = mp_obj s" "n \<le> length (heap (snd (m s)))"
      "take n (heap (snd (m s))) = take n (heap s)"
    and q: "\<forall>x. fst (m s) = Inr x \<longrightarrow> P x"
    unfolding frames_def by blast+
  show "mp_obj (snd (bindS m f s)) = mp_obj s
        \<and> n \<le> length (heap (snd (bindS m f s)))
        \<and> take n (heap (snd (bindS m f s))) = take n (heap s)
        \<and> (\<forall>x. fst (bindS m f s) = Inr x \<longrightarrow> Q x)"
  proof (cases "fst (m s)")
    case (Inl e)
    thus ?thesis using a by (simp add: bindS_Inl)
  next
    case (Inr x)
    hence "frames n (f x) Q" using q assms(2) by blast
    hence "mp_obj (snd (f x (snd (m s)))) = mp_obj (snd (m s))
        \<and> n \<le> length (heap (snd (f x (snd (m s)))))
        \<and> take n (heap (snd (f x (snd (m s))))) = take n (heap (snd (m s)))
        \<and> (\<forall>y. fst (f x (snd (m s))) = Inr y \<longrightarrow> Q y)"
      using a(2) unfolding frames_def by blast
    thus ?thesis using a Inr by (simp add: bindS_Inr)
  qed
qed

lemma frames_weaken: "frames n p P \<Longrightarrow> (\<And>x. P x \<Longrightarrow> Q x) \<Longrightarrow> frames n p Q"
  unfolding frames_def by blast

lemma frames_bind_pure:
  assumes "frames n m (\<lambda>x. True)" and "\<And>x. frames n (f x) Q"
  shows "frames n (bindS m f) Q"
  using assms(1) by (rule frames_bind) (rule assms(2))

lemma frames_bind_load: "(\<And>x. frames n (f x) Q) \<Longrightarrow> frames n (bindS (load a) f) Q"
  by (rule frames_bind_pure [OF frames_load])

lemma frames_bind_liftE: "(\<And>x. frames n (f x) Q) \<Longrightarrow> frames n (bindS (liftE r) f) Q"
  by (rule frames_bind_pure [OF frames_liftE])

lemma frames_bind_with_mp: "(\<And>x. frames n (f x) Q) \<Longrightarrow> frames n (bindS (with_mp g) f) Q"
  by (rule frames_bind_pure [OF frames_with_mp])

lemma frames_bind_alloc:
  "(\<And>a. n \<le> a \<Longrightarrow> frames n (f a) Q) \<Longrightarrow> frames n (bindS (alloc b) f) Q"
  by (rule frames_bind [OF frames_alloc])

lemma frames_bind_store:
  "n \<le> a \<Longrightarrow> (\<And>u. frames n (f u) Q) \<Longrightarrow> frames n (bindS (store a b) f) Q"
  by (rule frames_bind_pure [OF frames_store])

lemma frames_if:
  "(c \<Longrightarrow> frames n p Q) \<Longrightarrow> (\<not> c \<Longrightarrow> frames n q Q) \<Longrightarrow> frames n (if c then p else q) Q"
  by simp

lemma frames_read_mat: "frames n (read_mat r) (\<lambda>x. True)"
  unfolding read_mat_def
  by (cases r) (auto intro!: frames_bind_load frames_return)

lemma frames_bind_read_mat:
  "(\<And>x. frames n (f x) Q) \<Longrightarrow> frames n (bindS (read_mat r) f) Q"
  by (rule frames_bind_pure [OF frames_read_mat])

lemmas frames_steps =
  frames_bind_load frames_bind_liftE frames_bind_with_mp frames_bind_alloc frames_bind_store
  frames_bind_read_mat frames_if frames_alloc frames_return

lemma frames_OPD_h: "frames n (OPD_h rho ti pz wvl zd) (\<lambda>a. n \<le> a)"
  unfolding OPD_h_def by (intro frames_steps)

lemma frames_OPD_cols_h: "frames n (OPD_cols_h rho ti pz wvl zd) (\<lambda>a. n \<le> a)"
  unfolding OPD_cols_h_def by (intro frames_steps)

lemma frames_bind_OPD_cols_h:
  "(\<And>a. n \<le> a \<Longrightarrow> frames n (f a) Q) \<Longrightarrow> frames n (bindS (OPD_cols_h rho ti pz wvl zd) f) Q"
  by (rule frames_bind [OF frames_OPD_cols_h])

lemma frames_gLZRScan_h:
  "frames n (gLZRScan_h lstsq pz rv zd zv normalise wvl) (\<lambda>r. n \<le> mref_addr r)"
  unfolding gLZRScan_h_def
  by (intro frames_steps frames_bind_OPD_cols_h; simp)

lemma frames_bind_gLZRScan_h:
  "(\<And>r. n \<le> mref_addr r \<Longrightarrow> frames n (f r) Q)
     \<Longrightarrow> frames n (bindS (gLZRScan_h lstsq pz rv zd zv normalise wvl) f) Q"
  by (rule frames_bind [OF frames_gLZRScan_h])

lemma frames_gLZRCameraScan_h:
  "frames n (gLZRCameraScan_h lstsq rv zd normalise pz wvl zv) (\<lambda>r. n \<le> mref_addr r)"
  unfolding gLZRCameraScan_h_def by (intro frames_steps frames_gLZRScan_h)

lemma frames_gLZRFocalScan_h:
  "frames n (gLZRFocalScan_h lstsq rv zv normalise pz wvl zd) (\<lambda>r. n \<le> mref_addr r)"
  unfolding gLZRFocalScan_h_def by (intro frames_steps frames_gLZRScan_h)

lemma frames_gLZRParticleScan_h:
  "frames n (gLZRParticleScan_h lstsq rv pz normalise wvl zd zv) (\<lambda>r. n \<le> mref_addr r)"
  unfolding gLZRParticleScan_h_def by (intro frames_steps frames_gLZRScan_h)

lemma frames_psf_loop_h:
  "n \<le> PSF_xyz \<Longrightarrow> frames n (psf_loop_h m rv PSF_rz r_pix PSF_xyz is) (\<lambda>u. True)"
proof (induction "is")
  case Nil
  show ?case by (simp add: frames_return)
next
  case (Cons i "is")
  show ?case
    unfolding psf_loop_h.simps
    by (intro frames_steps Cons.IH Cons.prems)
qed

lemma frames_psfRZToPSFXYZ_h:
  "frames n (psfRZToPSFXYZ_h dxy xy_size rv PSF_rz) (\<lambda>a. n \<le> a)"
  unfolding psfRZToPSFXYZ_h_def Let_def
  by (intro frames_steps frames_bind_pure [OF frames_psf_loop_h]; assumption)

lemma frames_gLXYZCameraScan_h:
  "frames n (gLXYZCameraScan_h lstsq dxy xy_size zd normalise pz wvl zv) (\<lambda>a. n \<le> a)"
  unfolding gLXYZCameraScan_h_def
  by (intro frames_steps frames_bind [OF frames_gLZRCameraScan_h] frames_psfRZToPSFXYZ_h)

lemma frames_gLXYZFocalScan_h:
  "frames n (gLXYZFocalScan_h lstsq dxy xy_size zv normalise pz wvl zd) (\<lambda>a. n \<le> a)"
  unfolding gLXYZFocalScan_h_def
  by (intro frames_steps frames_bind [OF frames_gLZRFocalScan_h] frames_psfRZToPSFXYZ_h)

lemma frames_gLXYZParticleScan_h:
  "frames n (gLXYZParticleScan_h lstsq dxy xy_size pz normalise wvl zd zv) (\<lambda>a. n \<le> a)"
  unfolding gLXYZParticleScan_h_def
  by (intro frames_steps frames_bind [OF frames_gLZRParticleScan_h] frames_psfRZToPSFXYZ_h)

lemma frames_slowGL_h: "frames n (slowGL_h quad max_rho rv zv pz wvl zd) (\<lambda>x. True)"
  unfolding slowGL_h_def by (rule frames_with_mp)

lemma frames_slow_loop_h:
  assumes "n \<le> psf_rz" and "\<And>i j. frames n (f i j) (\<lambda>x. True)"
  shows "frames n (slow_loop_h f psf_rz ijs) (\<lambda>u. True)"
proof (induction ijs)
  case Nil
  show ?case by (simp add: frames_return)
next
  case (Cons ij ijs)
  show ?case
    unfolding slow_loop_h.simps
    by (intro frames_bind_pure [OF assms(2)] frames_steps Cons.IH assms(1))
qed

lemma frames_slow_finish_h:
  "n \<le> psf_rz \<Longrightarrow> frames n (slow_finish_h normalise psf_rz) (\<lambda>a. n \<le> a)"
  unfolding slow_finish_h_def by (intro frames_steps; assumption)

lemma frames_gLZRFocalScanSlow_h:
  "frames n (gLZRFocalScanSlow_h quad rv zv normalise pz wvl zd) (\<lambda>a. n \<le> a)"
  unfolding gLZRFocalScanSlow_h_def
  by (intro frames_steps frames_bind_pure [OF frames_slow_loop_h] frames_slow_finish_h
      frames_slowGL_h; assumption)

lemma frames_gLZRParticleScanSlow_h:
  "frames n (gLZRParticleScanSlow_h quad rv pz normalise wvl zd zv) (\<lambda>a. n \<le> a)"
  unfolding gLZRParticleScanSlow_h_def
  by (intro frames_steps frames_bind_pure [OF frames_slow_loop_h] frames_slow_finish_h
      frames_slowGL_h; assumption)

lemma frames_unchanged:
  assumes "frames (length (heap s)) p Q"
  shows "unchanged s (snd (p s))"
  using assms unfolding frames_def unchanged_def by simp

lemma frames_run_ok:
  assumes "frames (length (heap s)) p (\<lambda>a. length (heap s) \<le> a)"
  shows "run_ok s p"
  using assms unfolding frames_def run_ok_def unchanged_def fresh_in_def
  by (auto split: sum.splits)

lemma frames_as_addr:
  "frames n p (\<lambda>r. n \<le> mref_addr r) \<Longrightarrow> frames n (as_addr p) (\<lambda>a. n \<le> a)"
  unfolding as_addr_def by (erule frames_bind) (rule frames_return)

text \<open>
  C10. For every state and every choice of arguments, after a call of \<^verbatim>\<open>OPD\<close>,
  \<^verbatim>\<open>gLZRScan\<close>, the three \<^verbatim>\<open>gLZR*Scan\<close> and the three \<^verbatim>\<open>gLXYZ*Scan\<close> variants,
  \<^verbatim>\<open>psfRZToPSFXYZ\<close>, \<^verbatim>\<open>slowGL\<close> or a slow scan, whether it returns or raises, the
  parameter dictionary and every buffer that existed before the call (so every input
  array) hold the values they held before, and a returned array lives in a buffer
  allocated during the call.
\<close>

theorem inputs_not_mutated:
  "run_ok s (OPD_h rho ti pz wvl zd)
   \<and> run_ok s (as_addr (gLZRScan_h lstsq pza rva zda zva normalise wvl))
   \<and> run_ok s (as_addr (gLZRFocalScan_h lstsq rva zva normalise pz wvl zdo))
   \<and> run_ok s (as_addr (gLZRParticleScan_h lstsq rva pza normalise wvl zdo zv))
   \<and> run_ok s (as_addr (gLZRCameraScan_h lstsq rva zda normalise pz wvl zv))
   \<and> run_ok s (gLXYZFocalScan_h lstsq dxy xy_size zva normalise pz wvl zdo)
   \<and> run_ok s (gLXYZParticleScan_h lstsq dxy xy_size pza normalise wvl zdo zv)
   \<and> run_ok s (gLXYZCameraScan_h lstsq dxy xy_size zda normalise pz wvl zv)
   \<and> run_ok s (psfRZToPSFXYZ_h dxy xy_size rva PSF_rz)
   \<and> unchanged s (snd (slowGL_h quad max_rho rv zv pz wvl zd s))
   \<and> run_ok s (gLZRFocalScanSlow_h quad rva zva normalise pz wvl zdo)
   \<and> run_ok s (gLZRParticleScanSlow_h quad rva pza normalise wvl zdo zv)"
  by (intro conjI frames_run_ok frames_as_addr frames_unchanged [OF frames_slowGL_h]
      frames_OPD_h frames_gLZRScan_h frames_gLZRFocalScan_h frames_gLZRParticleScan_h
      frames_gLZRCameraScan_h frames_gLXYZFocalScan_h frames_gLXYZParticleScan_h
      frames_gLXYZCameraScan_h frames_psfRZToPSFXYZ_h frames_gLZRFocalScanSlow_h
      frames_gLZRParticleScanSlow_h)

theorem inputs_not_mutated_witness:
  "mp_obj (snd (gLZRScan_h lstsq_zero 0 1 2 3 True 0.6 state_example)) = mp_obj state_example
   \<and> take (length (heap state_example))
         (heap (snd (gLZRScan_h lstsq_zero 0 1 2 3 True 0.6 state_example)))
       = heap state_example"
proof -
  have "run_ok state_example (as_addr (gLZRScan_h lstsq_zero 0 1 2 3 True 0.6))"
    using inputs_not_mutated [of state_example] by blast
  hence "unchanged state_example (snd (as_addr (gLZRScan_h lstsq_zero 0 1 2 3 True 0.6) state_example))"
    by (simp add: run_ok_def)
  moreover have "snd (as_addr (gLZRScan_h lstsq_zero 0 1 2 3 True 0.6) state_example)
      = snd (gLZRScan_h lstsq_zero 0 1 2 3 True 0.6 state_example)"
    by (cases "gLZRScan_h lstsq_zero 0 1 2 3 True 0.6 state_example")
       (auto simp: as_addr_def bindS_def returnS_def split: sum.splits)
  ultimately show ?thesis
    by (simp add: unchanged_def)
qed

subsection \<open>The store-level operations compute the value-level results\<close>

text \<open>
  The operations on the store return, in a freshly allocated buffer, the array that the
  value-level definitions of the same functions compute from the contents of the argument
  buffers, and they raise the same exception when those raise.
\<close>

lemma map_index_eq:
  "map (\<lambda>i. f (xs ! i)) [0 ..< length xs] = map f xs"
  by (rule nth_equalityI) simp_all

lemma OPD_h_refines:
  assumes "rho < length (heap s)" "heap s ! rho = Vec r"
  shows "case fst (OPD_h rho ti pz wvl zd s) of
           Inl e \<Rightarrow> OPD (mp_obj s) r ti pz wvl zd = Inl e
         | Inr a \<Rightarrow> OPD (mp_obj s) r ti pz wvl zd
                     = Inr (fvec_of (heap (snd (OPD_h rho ti pz wvl zd s)) ! a))"
proof (cases "OPD_env (mp_obj s) wvl")
  case (Inl e)
  thus ?thesis by (simp add: OPD_h_def OPD_def bindS_def with_mp_def bindE_def)
next
  case (Inr e)
  have "map (\<lambda>i. fmul (Fin (e_k e))
               (fadd (fadd (fadd (map (OPDs e pz) r ! i) (map (OPDi e ti) r ! i))
                           (map (OPDg e) r ! i)) (map (OPDt e zd) r ! i)))
          [0 ..< length r] = map (OPD_elem e ti pz zd) r"
    by (rule nth_equalityI) (simp_all add: OPD_elem_def)
  thus ?thesis using Inr assms
    by (simp add: OPD_h_def OPD_def bindS_def with_mp_def bindE_def load_def alloc_def
        nth_append)
qed

lemma bc_map: "bc (map f xs) i = (if length xs = 1 then f (xs ! 0) else (map f xs) ! i)"
  by (simp add: bc_def)

lemma OPD_cols_h_exec:
  assumes "rho < length (heap s)" "heap s ! rho = Vec r"
    and "ti < length (heap s)" "heap s ! ti = Vec tiv"
    and "pz < length (heap s)" "heap s ! pz = Vec pzv"
    and "zd < length (heap s)" "heap s ! zd = Vec zdv"
  shows "(\<exists>e s'. OPD_cols_h rho ti pz wvl zd s = (Inl e, s')
            \<and> OPD_cols (mp_obj s) r tiv pzv wvl zdv = Inl e
            \<and> mp_obj s' = mp_obj s \<and> take (length (heap s)) (heap s') = heap s)
       \<or> (\<exists>g bs. OPD_cols_h rho ti pz wvl zd s
                   = (Inr (length (heap s) + 4), s\<lparr>heap := heap s @ bs @ [FMat g]\<rparr>)
            \<and> length bs = 4 \<and> OPD_cols (mp_obj s) r tiv pzv wvl zdv = Inr g)"
proof (cases "OPD_env (mp_obj s) wvl")
  case (Inl e)
  thus ?thesis by (simp add: OPD_cols_h_def OPD_cols_def bindS_def with_mp_def bindE_def)
next
  case (Inr e)
  note env = Inr
  show ?thesis
  proof (cases "broadcast (length pzv) (length tiv)")
    case (Inl e1)
    thus ?thesis using env assms
      by (simp add: OPD_cols_h_def OPD_cols_def bindS_def with_mp_def bindE_def load_def
          alloc_def liftE_def nth_append)
  next
    case (Inr n1)
    note b1 = Inr
    show ?thesis
    proof (cases "broadcast n1 (length zdv)")
      case (Inl e2)
      thus ?thesis using env b1 assms
        by (simp add: OPD_cols_h_def OPD_cols_def bindS_def with_mp_def bindE_def load_def
            alloc_def liftE_def nth_append)
    next
      case (Inr n)
      note b2 = Inr
      have idx: "\<And>i. i < n \<Longrightarrow>
          (length pzv = 1 \<or> i < length pzv) \<and> (length tiv = 1 \<or> i < length tiv)
          \<and> (length zdv = 1 \<or> i < length zdv)"
        using b1 b2 by (auto simp: broadcast_def split: if_splits)
      have content: "map (\<lambda>i. map (\<lambda>j. fmul (Fin (e_k e))
                  (fadd (fadd (fadd (bc (map (\<lambda>p. map (OPDs e p) r) pzv) i ! j)
                                    (bc (map (\<lambda>t. map (OPDi e t) r) tiv) i ! j))
                              (map (OPDg e) r ! j))
                        (bc (map (\<lambda>z. map (OPDt e z) r) zdv) i ! j)))
                  [0 ..< length r]) [0 ..< n]
          = map (\<lambda>i. map (OPD_elem e (bc tiv i) (bc pzv i) (bc zdv i)) r) [0 ..< n]"
      proof (rule map_cong [OF refl])
        fix i assume "i \<in> set [0 ..< n]"
        hence i: "i < n" by simp
        have p: "bc (map (\<lambda>p. map (OPDs e p) r) pzv) i = map (OPDs e (bc pzv i)) r"
          and t: "bc (map (\<lambda>t. map (OPDi e t) r) tiv) i = map (OPDi e (bc tiv i)) r"
          and z: "bc (map (\<lambda>z. map (OPDt e z) r) zdv) i = map (OPDt e (bc zdv i)) r"
          using idx [OF i] by (auto simp: bc_def)
        show "map (\<lambda>j. fmul (Fin (e_k e))
                  (fadd (fadd (fadd (bc (map (\<lambda>p. map (OPDs e p) r) pzv) i ! j)
                                    (bc (map (\<lambda>t. map (OPDi e t) r) tiv) i ! j))
                              (map (OPDg e) r ! j))
                        (bc (map (\<lambda>z. map (OPDt e z) r) zdv) i ! j)))
                  [0 ..< length r]
            = map (OPD_elem e (bc tiv i) (bc pzv i) (bc zdv i)) r"
          unfolding p t z by (rule nth_equalityI) (simp_all add: OPD_elem_def)
      qed
      have "OPD_cols_h rho ti pz wvl zd s
          = (Inr (length (heap s) + 4),
             s\<lparr>heap := heap s @ [FMat (map (\<lambda>p. map (OPDs e p) r) pzv),
                                 FMat (map (\<lambda>t. map (OPDi e t) r) tiv),
                                 FVec (map (OPDg e) r),
                                 FMat (map (\<lambda>z. map (OPDt e z) r) zdv)]
                            @ [FMat (map (\<lambda>i. map (OPD_elem e (bc tiv i) (bc pzv i) (bc zdv i)) r)
                                       [0 ..< n])]\<rparr>)"
        using env b1 b2 assms content
        by (simp add: OPD_cols_h_def bindS_def with_mp_def load_def alloc_def liftE_def
            nth_append)
      moreover have "OPD_cols (mp_obj s) r tiv pzv wvl zdv
          = Inr (map (\<lambda>i. map (OPD_elem e (bc tiv i) (bc pzv i) (bc zdv i)) r) [0 ..< n])"
        using env b1 b2 by (simp add: OPD_cols_def bindE_def)
      ultimately show ?thesis by (intro disjI2 exI conjI) (assumption, simp, assumption)
    qed
  qed
qed

lemma OPD_cols_content:
  assumes b1: "broadcast (length pzv) (length tiv) = Inr n1"
    and b2: "broadcast n1 (length zdv) = Inr n"
  shows "map (\<lambda>i. map (\<lambda>j. fmul (Fin (e_k e))
                  (fadd (fadd (fadd (bc (map (\<lambda>p. map (OPDs e p) r) pzv) i ! j)
                                    (bc (map (\<lambda>t. map (OPDi e t) r) tiv) i ! j))
                              (map (OPDg e) r ! j))
                        (bc (map (\<lambda>z. map (OPDt e z) r) zdv) i ! j)))
                  [0 ..< length r]) [0 ..< n]
          = map (\<lambda>i. map (OPD_elem e (bc tiv i) (bc pzv i) (bc zdv i)) r) [0 ..< n]"
proof (rule map_cong [OF refl])
  fix i assume "i \<in> set [0 ..< n]"
  hence i: "i < n" by simp
  have idx: "(length pzv = 1 \<or> i < length pzv) \<and> (length tiv = 1 \<or> i < length tiv)
          \<and> (length zdv = 1 \<or> i < length zdv)"
    using b1 b2 i by (auto simp: broadcast_def split: if_splits)
  have p: "bc (map (\<lambda>p. map (OPDs e p) r) pzv) i = map (OPDs e (bc pzv i)) r"
    and t: "bc (map (\<lambda>t. map (OPDi e t) r) tiv) i = map (OPDi e (bc tiv i)) r"
    and z: "bc (map (\<lambda>z. map (OPDt e z) r) zdv) i = map (OPDt e (bc zdv i)) r"
    using idx by (auto simp: bc_def)
  show "map (\<lambda>j. fmul (Fin (e_k e))
                  (fadd (fadd (fadd (bc (map (\<lambda>p. map (OPDs e p) r) pzv) i ! j)
                                    (bc (map (\<lambda>t. map (OPDi e t) r) tiv) i ! j))
                              (map (OPDg e) r ! j))
                        (bc (map (\<lambda>z. map (OPDt e z) r) zdv) i ! j)))
                  [0 ..< length r]
            = map (OPD_elem e (bc tiv i) (bc pzv i) (bc zdv i)) r"
    unfolding p t z by (rule nth_equalityI) (simp_all add: OPD_elem_def)
qed

lemma OPD_cols_h_ok:
  assumes "rho < length (heap s)" "heap s ! rho = Vec r"
    and "ti < length (heap s)" "heap s ! ti = Vec tiv"
    and "pz < length (heap s)" "heap s ! pz = Vec pzv"
    and "zd < length (heap s)" "heap s ! zd = Vec zdv"
    and env: "OPD_env (mp_obj s) wvl = Inr e"
    and ok: "OPD_cols (mp_obj s) r tiv pzv wvl zdv = Inr g"
  shows "OPD_cols_h rho ti pz wvl zd s
           = (Inr (length (heap s) + 4),
              s\<lparr>heap := heap s @ OPD_cols_temps e r tiv pzv zdv @ [FMat g]\<rparr>)"
proof -
  from ok env obtain n1 where b1: "broadcast (length pzv) (length tiv) = Inr n1"
    by (cases "broadcast (length pzv) (length tiv)") (simp_all add: OPD_cols_def bindE_def)
  from ok env b1 obtain n where b2: "broadcast n1 (length zdv) = Inr n"
    by (cases "broadcast n1 (length zdv)") (simp_all add: OPD_cols_def bindE_def)
  have g: "g = map (\<lambda>i. map (OPD_elem e (bc tiv i) (bc pzv i) (bc zdv i)) r) [0 ..< n]"
    using ok env b1 b2 by (simp add: OPD_cols_def bindE_def)
  show ?thesis
    using env b1 b2 assms(1-8) OPD_cols_content [OF b1 b2, of e r]
    by (simp add: OPD_cols_h_def bindS_def with_mp_def load_def alloc_def liftE_def
        nth_append g OPD_cols_temps_def)
qed

lemma OPD_cols_h_err:
  assumes "rho < length (heap s)" "heap s ! rho = Vec r"
    and "ti < length (heap s)" "heap s ! ti = Vec tiv"
    and "pz < length (heap s)" "heap s ! pz = Vec pzv"
    and "zd < length (heap s)" "heap s ! zd = Vec zdv"
    and err: "OPD_cols (mp_obj s) r tiv pzv wvl zdv = Inl e"
  shows "fst (OPD_cols_h rho ti pz wvl zd s) = Inl e"
  using OPD_cols_h_exec [OF assms(1-8), of wvl] err by auto

lemma gLZRScan_alt:
  "gLZRScan lstsq mp pz rv zd zv normalise wvl =
     bindE (configure mp wvl) (\<lambda>cfg.
     bindE (aperture mp) (\<lambda>a.
     bindE (py_div (2 * pi) wvl) (\<lambda>k.
     bindE (getp mp ''ti0'') (\<lambda>ti0.
     bindE (OPD_cols mp (linspace 0 (snd cfg) rho_samples) (map (\<lambda>z. z + ti0) zv) pz wvl zd) (\<lambda>opdt.
     bindE (lstsq (transpose_m rho_samples
                     (map (\<lambda>sf. map (\<lambda>r. fJ0 (fmul sf (Fin r))) (linspace 0 (snd cfg) rho_samples))
                        (fst cfg)))
                  (transpose_m rho_samples (map (map cexp_i) opdt))) (\<lambda>C.
     bindE (getp mp ''M'') (\<lambda>M1.
     bindE (broadcast (length rv) (length zd)) (\<lambda>nb.
     bindE (matdot (length (fst cfg))
              (map (\<lambda>bj. map (\<lambda>sf. radial_R sf bj (snd cfg)) (fst cfg))
                 (map (\<lambda>j. fdiv (Fin (k * a * bc (map (\<lambda>r. r * M1) rv) j)) (Fin (bc zd j)))
                    [0 ..< nb])) C) (\<lambda>field.
       if normalise
       then normalize_grid (transpose_m (ncols C) (map (map (\<lambda>z. fmul (cabs z) (cabs z))) field))
       else Inr (transpose_m (ncols C) (map (map (\<lambda>z. fmul (cabs z) (cabs z))) field)))))))))))"
  unfolding gLZRScan_def aperture_def Let_def
  by (simp add: bindE_def split: sum.splits prod.splits)

lemma map2_fdiv_radial:
  "map2 (map2 fdiv) (map (\<lambda>bj. map (\<lambda>sf. radial_num sf bj mr) sfs) bs)
                    (map (\<lambda>bj. map (\<lambda>sf. radial_denom sf bj) sfs) bs)
     = map (\<lambda>bj. map (\<lambda>sf. radial_R sf bj mr) sfs) bs"
proof -
  have "\<And>bj. map2 fdiv (map (\<lambda>sf. radial_num sf bj mr) sfs) (map (\<lambda>sf. radial_denom sf bj) sfs)
      = map (\<lambda>sf. radial_R sf bj mr) sfs"
    by (simp add: zip_map_map radial_R_def split_def zip_same_conv_map)
  thus ?thesis by (simp add: zip_map_map split_def zip_same_conv_map)
qed

lemma transpose_m_map:
  assumes "\<forall>row \<in> set X. length row = n"
  shows "transpose_m n (map (map f) X) = map (map f) (transpose_m n X)"
  using assms by (simp add: transpose_m_def)

lemma matdot_rows:
  "matdot inner R C = Inr field \<Longrightarrow> \<forall>row \<in> set field. length row = ncols C"
  by (auto simp: matdot_def split: if_splits)

lemma bindS_with_mp:
  "bindS (with_mp g) f s = (case g (mp_obj s) of Inl e \<Rightarrow> (Inl e, s) | Inr x \<Rightarrow> f x s)"
  by (simp add: bindS_def with_mp_def split: sum.splits)

lemma bindS_liftE:
  "bindS (liftE r) f s = (case r of Inl e \<Rightarrow> (Inl e, s) | Inr x \<Rightarrow> f x s)"
  by (simp add: bindS_def liftE_def split: sum.splits)

lemma bindS_alloc: "bindS (alloc b) f s = f (length (heap s)) (s\<lparr>heap := heap s @ [b]\<rparr>)"
  by (simp add: bindS_def alloc_def)

lemma bindS_load: "bindS (load a) f s = f (heap s ! a) s"
  by (simp add: bindS_def load_def)

lemma bindS_store: "bindS (store a b) f s = f () (s\<lparr>heap := (heap s)[a := b]\<rparr>)"
  by (simp add: bindS_def store_def)

lemma bindS_OPD_cols_h:
  "bindS (OPD_cols_h rho ti pz wvl zd) f s =
     (case OPD_cols_h rho ti pz wvl zd s of
        (Inl e, s') \<Rightarrow> (Inl e, s') | (Inr x, s') \<Rightarrow> f x s')"
  by (simp add: bindS_def)

lemma bindS_read_mat_T:
  "bindS (read_mat (Transposed a n)) f s = f (transpose_m n (fmat_of (heap s ! a))) s"
  by (simp add: read_mat_def bindS_def load_def returnS_def)

lemmas exec_steps =
  bindS_with_mp bindS_liftE bindS_alloc bindS_load bindS_store bindS_OPD_cols_h
  bindS_read_mat_T returnS_def

lemma gLZRScan_h_refines:
  assumes pzA: "pz < length (heap s)" "heap s ! pz = Vec pzv"
    and rvA: "rv < length (heap s)" "heap s ! rv = Vec rvv"
    and zdA: "zd < length (heap s)" "heap s ! zd = Vec zdv"
    and zvA: "zv < length (heap s)" "heap s ! zv = Vec zvv"
  shows "case gLZRScan_h lstsq pz rv zd zv normalise wvl s of
           (Inl e, s') \<Rightarrow> gLZRScan lstsq (mp_obj s) pzv rvv zdv zvv normalise wvl = Inl e
         | (Inr r, s') \<Rightarrow>
             gLZRScan lstsq (mp_obj s) pzv rvv zdv zvv normalise wvl = Inr (view_h r s')"
proof (cases "configure (mp_obj s) wvl")
  case (Inl e)
  thus ?thesis by (simp add: gLZRScan_h_def gLZRScan_alt exec_steps bindE_def)
next
  case (Inr cfg)
  note c1 = Inr
  show ?thesis
  proof (cases "aperture (mp_obj s)")
    case (Inl e)
    thus ?thesis using c1 by (simp add: gLZRScan_h_def gLZRScan_alt exec_steps bindE_def)
  next
    case (Inr a)
    note c2 = Inr
    show ?thesis
    proof (cases "py_div (2 * pi) wvl")
      case (Inl e)
      thus ?thesis using c1 c2 by (simp add: gLZRScan_h_def gLZRScan_alt exec_steps bindE_def)
    next
      case (Inr k)
      note c3 = Inr
      show ?thesis
      proof (cases "getp (mp_obj s) ''ti0''")
        case (Inl e)
        thus ?thesis using c1 c2 c3
          by (simp add: gLZRScan_h_def gLZRScan_alt exec_steps bindE_def)
      next
        case (Inr ti0)
        note c4 = Inr
        define rho where "rho = linspace 0 (snd cfg) rho_samples"
        define ti where "ti = map (\<lambda>z. z + ti0) zvv"
        define st where "st = s\<lparr>heap := heap s @ [FVec (fst cfg), Vec rho, Vec ti]\<rparr>"
        have stA: "Suc (length (heap s)) < length (heap st)"
            "heap st ! Suc (length (heap s)) = Vec rho"
            "Suc (Suc (length (heap s))) < length (heap st)"
            "heap st ! Suc (Suc (length (heap s))) = Vec ti"
            "pz < length (heap st)" "heap st ! pz = Vec pzv"
            "zd < length (heap st)" "heap st ! zd = Vec zdv"
          using pzA zdA by (simp_all add: st_def nth_append)
        have mpst: "mp_obj st = mp_obj s" by (simp add: st_def)
        show ?thesis
        proof (cases "OPD_cols (mp_obj s) rho ti pzv wvl zdv")
          case (Inl e)
          hence "fst (OPD_cols_h (Suc (length (heap s))) (Suc (Suc (length (heap s)))) pz wvl zd st)
                   = Inl e"
            using OPD_cols_h_err [OF stA, of wvl e] by (simp add: mpst)
          then obtain s' where
            "OPD_cols_h (Suc (length (heap s))) (Suc (Suc (length (heap s)))) pz wvl zd st
               = (Inl e, s')"
            by (cases "OPD_cols_h (Suc (length (heap s))) (Suc (Suc (length (heap s)))) pz wvl zd st")
               simp
          thus ?thesis using c1 c2 c3 c4 Inl zvA
            by (simp add: gLZRScan_h_def gLZRScan_alt exec_steps bindE_def nth_append
                st_def rho_def ti_def del: map_map fdiv.simps)
        next
          case (Inr g)
          note c5 = Inr
          then obtain env where env: "OPD_env (mp_obj s) wvl = Inr env"
            by (cases "OPD_env (mp_obj s) wvl") (simp_all add: OPD_cols_def bindE_def)
          have oc: "OPD_cols_h (Suc (length (heap s))) (Suc (Suc (length (heap s)))) pz wvl zd st
               = (Inr (length (heap st) + 4),
                  st\<lparr>heap := heap st @ OPD_cols_temps env rho ti pzv zdv @ [FMat g]\<rparr>)"
            using OPD_cols_h_ok [OF stA, of wvl env g] env c5 by (simp add: mpst)
          note ex = gLZRScan_h_def gLZRScan_alt exec_steps bindE_def nth_append
            st_def rho_def ti_def OPD_cols_temps_def map2_fdiv_radial
          show ?thesis
          proof (cases "lstsq (transpose_m rho_samples
                     (map (\<lambda>sf. map (\<lambda>r. fJ0 (fmul sf (Fin r))) (linspace 0 (snd cfg) rho_samples))
                        (fst cfg)))
                  (transpose_m rho_samples (map (map cexp_i) g))")
            case (Inl e)
            thus ?thesis using c1 c2 c3 c4 c5 oc zvA
              by (simp add: ex del: map_map fdiv.simps)
          next
            case (Inr Cv)
            note c6 = Inr
            show ?thesis
            proof (cases "getp (mp_obj s) ''M''")
              case (Inl e)
              thus ?thesis using c1 c2 c3 c4 c5 c6 oc zvA
                by (simp add: ex del: map_map fdiv.simps)
            next
              case (Inr M1)
              note c7 = Inr
              show ?thesis
              proof (cases "broadcast (length rvv) (length zdv)")
                case (Inl e)
                thus ?thesis using c1 c2 c3 c4 c5 c6 c7 oc zvA rvA zdA
                  by (simp add: ex del: map_map fdiv.simps)
              next
                case (Inr nb)
                note c8 = Inr
                show ?thesis
                proof (cases "matdot (length (fst cfg))
                    (map (\<lambda>bj. map (\<lambda>sf. radial_R sf bj (snd cfg)) (fst cfg))
                       (map (\<lambda>j. fdiv (Fin (k * a * bc (map (\<lambda>r. r * M1) rvv) j))
                                       (Fin (bc zdv j))) [0 ..< nb])) Cv")
                  case (Inl e)
                  thus ?thesis using c1 c2 c3 c4 c5 c6 c7 c8 oc zvA rvA zdA
                    by (simp add: ex del: map_map fdiv.simps)
                next
                  case (Inr field)
                  note c9 = Inr
                  have rows: "\<forall>row \<in> set (map (map (\<lambda>z. fmul (cabs z) (cabs z))) field).
                      length row = ncols Cv"
                    using matdot_rows [OF c9] by simp
                  show ?thesis
                  proof (cases normalise)
                    case False
                    thus ?thesis using c1 c2 c3 c4 c5 c6 c7 c8 c9 oc zvA rvA zdA
                      by (simp add: ex view_h_def del: map_map fdiv.simps)
                  next
                    case True
                    note n = True
                    show ?thesis
                    proof (cases "amax (transpose_m (ncols Cv)
                                    (map (map (\<lambda>z. fmul (cabs z) (cabs z))) field))")
                      case (Inl e)
                      thus ?thesis using c1 c2 c3 c4 c5 c6 c7 c8 c9 oc zvA rvA zdA n
                        by (simp add: ex normalize_grid_def del: map_map fdiv.simps)
                    next
                      case (Inr m)
                      thus ?thesis using c1 c2 c3 c4 c5 c6 c7 c8 c9 oc zvA rvA zdA n
                          transpose_m_map [OF rows, of "\<lambda>x. fdiv x m"]
                        by (simp add: ex normalize_grid_def view_h_def del: map_map fdiv.simps)
                    qed
                  qed
                qed
              qed
            qed
          qed
        qed
      qed
    qed
  qed
qed

lemma gLZRFocalScan_h_refines:
  assumes rvA: "rv < length (heap s)" "heap s ! rv = Vec rvv"
    and zvA: "zv < length (heap s)" "heap s ! zv = Vec zvv"
  shows "case gLZRFocalScan_h lstsq rv zv normalise pz wvl zd s of
           (Inl e, s') \<Rightarrow> gLZRFocalScan lstsq (mp_obj s) rvv zvv normalise pz wvl zd = Inl e
         | (Inr r, s') \<Rightarrow>
             gLZRFocalScan lstsq (mp_obj s) rvv zvv normalise pz wvl zd = Inr (view_h r s')"
proof (cases "default_zd (mp_obj s) zd")
  case (Inl e)
  thus ?thesis by (simp add: gLZRFocalScan_h_def gLZRFocalScan_def exec_steps bindE_def)
next
  case (Inr z)
  define st where "st = s\<lparr>heap := heap s @ [Vec [pz], Vec [z]]\<rparr>"
  have mp: "mp_obj st = mp_obj s" by (simp add: st_def)
  have "case gLZRScan_h lstsq (length (heap s)) rv (Suc (length (heap s))) zv normalise wvl st of
           (Inl e, s') \<Rightarrow> gLZRScan lstsq (mp_obj st) [pz] rvv [z] zvv normalise wvl = Inl e
         | (Inr r, s') \<Rightarrow>
             gLZRScan lstsq (mp_obj st) [pz] rvv [z] zvv normalise wvl = Inr (view_h r s')"
    using rvA zvA by (intro gLZRScan_h_refines) (simp_all add: st_def nth_append)
  hence "case gLZRScan_h lstsq (length (heap s)) rv (Suc (length (heap s))) zv normalise wvl st of
           (Inl e, s') \<Rightarrow> gLZRScan lstsq (mp_obj s) [pz] rvv [z] zvv normalise wvl = Inl e
         | (Inr r, s') \<Rightarrow>
             gLZRScan lstsq (mp_obj s) [pz] rvv [z] zvv normalise wvl = Inr (view_h r s')"
    unfolding mp .
  thus ?thesis using Inr
    by (auto simp add: gLZRFocalScan_h_def gLZRFocalScan_def exec_steps bindE_def st_def
        split: prod.splits sum.splits)
qed

lemma gLZRParticleScan_h_refines:
  assumes rvA: "rv < length (heap s)" "heap s ! rv = Vec rvv"
    and pzA: "pz < length (heap s)" "heap s ! pz = Vec pzv"
  shows "case gLZRParticleScan_h lstsq rv pz normalise wvl zd zv s of
           (Inl e, s') \<Rightarrow> gLZRParticleScan lstsq (mp_obj s) rvv pzv normalise wvl zd zv = Inl e
         | (Inr r, s') \<Rightarrow>
             gLZRParticleScan lstsq (mp_obj s) rvv pzv normalise wvl zd zv = Inr (view_h r s')"
proof (cases "default_zd (mp_obj s) zd")
  case (Inl e)
  thus ?thesis by (simp add: gLZRParticleScan_h_def gLZRParticleScan_def exec_steps bindE_def)
next
  case (Inr z)
  define st where "st = s\<lparr>heap := heap s @ [Vec [z], Vec [zv]]\<rparr>"
  have mp: "mp_obj st = mp_obj s" by (simp add: st_def)
  have "case gLZRScan_h lstsq pz rv (length (heap s)) (Suc (length (heap s))) normalise wvl st of
           (Inl e, s') \<Rightarrow> gLZRScan lstsq (mp_obj st) pzv rvv [z] [zv] normalise wvl = Inl e
         | (Inr r, s') \<Rightarrow>
             gLZRScan lstsq (mp_obj st) pzv rvv [z] [zv] normalise wvl = Inr (view_h r s')"
    using rvA pzA by (intro gLZRScan_h_refines) (simp_all add: st_def nth_append)
  hence "case gLZRScan_h lstsq pz rv (length (heap s)) (Suc (length (heap s))) normalise wvl st of
           (Inl e, s') \<Rightarrow> gLZRScan lstsq (mp_obj s) pzv rvv [z] [zv] normalise wvl = Inl e
         | (Inr r, s') \<Rightarrow>
             gLZRScan lstsq (mp_obj s) pzv rvv [z] [zv] normalise wvl = Inr (view_h r s')"
    unfolding mp .
  thus ?thesis using Inr
    by (auto simp add: gLZRParticleScan_h_def gLZRParticleScan_def exec_steps bindE_def st_def
        split: prod.splits sum.splits)
qed

lemma gLZRCameraScan_h_refines:
  assumes rvA: "rv < length (heap s)" "heap s ! rv = Vec rvv"
    and zdA: "zd < length (heap s)" "heap s ! zd = Vec zdv"
  shows "case gLZRCameraScan_h lstsq rv zd normalise pz wvl zv s of
           (Inl e, s') \<Rightarrow> gLZRCameraScan lstsq (mp_obj s) rvv zdv normalise pz wvl zv = Inl e
         | (Inr r, s') \<Rightarrow>
             gLZRCameraScan lstsq (mp_obj s) rvv zdv normalise pz wvl zv = Inr (view_h r s')"
proof -
  define st where "st = s\<lparr>heap := heap s @ [Vec [pz], Vec [zv]]\<rparr>"
  have mp: "mp_obj st = mp_obj s" by (simp add: st_def)
  have "case gLZRScan_h lstsq (length (heap s)) rv zd (Suc (length (heap s))) normalise wvl st of
           (Inl e, s') \<Rightarrow> gLZRScan lstsq (mp_obj st) [pz] rvv zdv [zv] normalise wvl = Inl e
         | (Inr r, s') \<Rightarrow>
             gLZRScan lstsq (mp_obj st) [pz] rvv zdv [zv] normalise wvl = Inr (view_h r s')"
    using rvA zdA by (intro gLZRScan_h_refines) (simp_all add: st_def nth_append)
  hence "case gLZRScan_h lstsq (length (heap s)) rv zd (Suc (length (heap s))) normalise wvl st of
           (Inl e, s') \<Rightarrow> gLZRScan lstsq (mp_obj s) [pz] rvv zdv [zv] normalise wvl = Inl e
         | (Inr r, s') \<Rightarrow>
             gLZRScan lstsq (mp_obj s) [pz] rvv zdv [zv] normalise wvl = Inr (view_h r s')"
    unfolding mp .
  thus ?thesis
    by (auto simp add: gLZRCameraScan_h_def gLZRCameraScan_def exec_steps st_def
        split: prod.splits sum.splits)
qed

section \<open>Properties of the binary64 computations\<close>

subsection \<open>Rounding\<close>

text \<open>
  One rounding moves a number by at most half a unit in the last place, that is by a
  relative \<open>2^-53\<close> in the normal range; rounding is monotone, odd, and leaves powers of
  two in place.
\<close>

lemma rhe_err: "\<bar>of_int (rhe q) - q\<bar> \<le> 1 / 2"
  unfolding rhe_def Let_def by (auto simp: abs_if) linarith+

lemma rhe_int [simp]: "rhe (of_int n) = n"
  by (simp add: rhe_def)

lemma rhe_0 [simp]: "rhe 0 = 0"
  using rhe_int [of 0] by simp

lemma ulp64_pos: "0 < ulp64 x"
  by (simp add: ulp64_def)

lemma rd_0 [simp]: "rd 0 = 0"
  by (simp add: rd_def)

lemma rd_err: "\<bar>rd x - x\<bar> \<le> ulp64 x / 2"
proof -
  let ?u = "ulp64 x"
  have u: "0 < ?u" by (rule ulp64_pos)
  have "rd x - x = (of_int (rhe (x / ?u)) - x / ?u) * ?u"
    using u by (simp add: rd_def algebra_simps)
  hence "\<bar>rd x - x\<bar> = \<bar>of_int (rhe (x / ?u)) - x / ?u\<bar> * ?u"
    using u by (simp add: abs_mult)
  also have "\<dots> \<le> 1 / 2 * ?u"
    using rhe_err [of "x / ?u"] u by (intro mult_right_mono) simp_all
  finally show ?thesis by simp
qed

text \<open>In the binade \<open>[2^E, 2^(E+1))\<close>, \<open>E \<ge> -1022\<close>, one unit in the last place is \<open>2^(E-52)\<close>.\<close>

lemma ulp64_binade:
  assumes lo: "2 powi E \<le> \<bar>x\<bar>" and hi: "\<bar>x\<bar> < 2 powi (E + 1)" and E: "- 1022 \<le> E"
  shows "ulp64 x = 2 powi (E - 52)"
proof -
  define k where "k = nat (E + int emin)"
  have em: "int emin = 1074" by (simp add: emin_def)
  have k: "int k = E + int emin" using E by (simp add: k_def em)
  have p1: "(2::real) powi E * 2 ^ emin = 2 ^ k"
  proof -
    have "(2::real) powi E * 2 powi (int emin) = 2 powi (E + int emin)"
      by (simp add: power_int_add)
    also have "\<dots> = 2 powi (int k)" by (simp only: k)
    finally show ?thesis by (simp only: power_int_of_nat)
  qed
  have p2: "(2::real) powi (E + 1) * 2 ^ emin = 2 ^ (k + 1)"
  proof -
    have "(2::real) powi (E + 1) * 2 powi (int emin) = 2 powi (E + 1 + int emin)"
      by (simp add: power_int_add)
    also have "E + 1 + int emin = int (k + 1)" using k by simp
    finally show ?thesis by (simp only: power_int_of_nat)
  qed
  let ?n = "\<lfloor>\<bar>x\<bar> * 2 ^ emin\<rfloor>"
  have "(2::real) powi E * 2 ^ emin \<le> \<bar>x\<bar> * 2 ^ emin"
    using lo by (intro mult_right_mono) simp_all
  hence "(2::real) ^ k \<le> \<bar>x\<bar> * 2 ^ emin" by (simp only: p1)
  hence "of_int (2 ^ k) \<le> \<bar>x\<bar> * 2 ^ emin" by simp
  hence n1: "2 ^ k \<le> ?n" by (simp only: le_floor_iff)
  have "\<bar>x\<bar> * 2 ^ emin < (2::real) powi (E + 1) * 2 ^ emin"
    using hi by (intro mult_strict_right_mono) simp_all
  hence "\<bar>x\<bar> * 2 ^ emin < (2::real) ^ (k + 1)" by (simp only: p2)
  hence "\<bar>x\<bar> * 2 ^ emin < of_int (2 ^ (k + 1))" by simp
  hence n2: "?n < 2 ^ (k + 1)" by (simp only: floor_less_iff)
  have b: "bitlen ?n = int k + 1"
  proof -
    have e1: "nat (int k + 1) - 1 = k" by simp
    have e2: "nat (int k + 2) - 1 = k + 1" by simp
    have "int k + 1 \<le> bitlen ?n"
      unfolding bitlen_ge_iff_power e1 using n1 by simp
    moreover have "\<not> int k + 2 \<le> bitlen ?n"
      unfolding bitlen_ge_iff_power e2 using n2 by simp
    ultimately show ?thesis by linarith
  qed
  have s: "nat (bitlen ?n - 53) = nat (E + 1022)" using b k em by simp
  have "E + 1022 = int (nat (E + 1022))" using E by simp
  hence "(2::real) powi (E + 1022) = 2 ^ nat (E + 1022)"
    by (metis power_int_of_nat)
  moreover have "(2::real) powi 1074 = 2 ^ emin"
    using power_int_of_nat [of "2::real" emin] by (simp only: em)
  ultimately have "ulp64 x = 2 powi (E + 1022) / 2 powi 1074"
    by (simp only: ulp64_def s)
  also have "\<dots> = 2 powi (E + 1022 - 1074)"
    by (rule power_int_diff [symmetric]) simp
  finally show ?thesis by simp
qed


text \<open>The relative error of one rounding in the normal range is at most \<open>2^-53\<close>.\<close>

lemma rd_rel:
  assumes "2 powi (- 1022) \<le> \<bar>x\<bar>"
  shows "\<bar>rd x - x\<bar> \<le> \<bar>x\<bar> / 2 ^ 53"
proof -
  have x: "0 < \<bar>x\<bar>" using assms by (smt (verit) zero_less_power_int)
  define E where "E = \<lfloor>log 2 \<bar>x\<bar>\<rfloor>"
  have "2 powr (of_int E) \<le> \<bar>x\<bar> \<and> \<bar>x\<bar> < 2 powr (of_int E + 1)"
    using floor_log_eq_powr_iff [of "\<bar>x\<bar>" 2 E] x by (simp add: E_def)
  moreover have "(2::real) powr (of_int E + 1) = 2 powr (of_int (E + 1))" by simp
  moreover have "\<And>n. (2::real) powr (real_of_int n) = 2 powi n"
    by (rule powr_real_of_int') simp_all
  ultimately have lo: "2 powi E \<le> \<bar>x\<bar>" and hi: "\<bar>x\<bar> < 2 powi (E + 1)"
    by metis+
  have "\<not> E < - 1022"
  proof
    assume "E < - 1022"
    hence "E + 1 \<le> - 1022" by simp
    hence "(2::real) powi (E + 1) \<le> 2 powi (- 1022)"
      by (intro power_int_increasing) simp_all
    thus False using hi assms by linarith
  qed
  hence E: "- 1022 \<le> E" by simp
  have "\<bar>rd x - x\<bar> \<le> 2 powi (E - 52) / 2"
    using rd_err [of x] by (simp only: ulp64_binade [OF lo hi E])
  also have "\<dots> = 2 powi E / 2 ^ 53"
    by (simp add: power_int_diff)
  also have "\<dots> \<le> \<bar>x\<bar> / 2 ^ 53"
    using lo by (simp add: divide_right_mono)
  finally show ?thesis .
qed


lemma rhe_floor: "rhe q = \<lfloor>q\<rfloor> \<or> rhe q = \<lfloor>q\<rfloor> + 1"
  by (simp add: rhe_def Let_def)

lemma rhe_mono:
  assumes "q \<le> q'"
  shows "rhe q \<le> rhe q'"
proof (cases "\<lfloor>q\<rfloor> = \<lfloor>q'\<rfloor>")
  case True
  have "q - of_int \<lfloor>q'\<rfloor> \<le> q' - of_int \<lfloor>q'\<rfloor>" using assms by simp
  thus ?thesis using True by (auto simp: rhe_def Let_def)
next
  case False
  hence "\<lfloor>q\<rfloor> < \<lfloor>q'\<rfloor>" using floor_mono [OF assms] by linarith
  moreover have "\<lfloor>q'\<rfloor> \<le> rhe q'" using rhe_floor [of q'] by auto
  moreover have "rhe q \<le> \<lfloor>q\<rfloor> + 1" using rhe_floor [of q] by auto
  ultimately show ?thesis by linarith
qed

lemma rhe_ge_int: "of_int n \<le> q \<Longrightarrow> n \<le> rhe q"
  using rhe_mono [of "of_int n" q] by simp

lemma rhe_le_int: "q \<le> of_int n \<Longrightarrow> rhe q \<le> n"
  using rhe_mono [of q "of_int n"] by simp

lemma rhe_minus: "rhe (- q) = - rhe q"
proof (cases "q = of_int \<lfloor>q\<rfloor>")
  case True
  then obtain n where "q = of_int n" ..
  hence "- q = of_int (- n)" by simp
  thus ?thesis using \<open>q = of_int n\<close> by (metis rhe_int)
next
  case False
  hence f: "\<lfloor>- q\<rfloor> = - \<lfloor>q\<rfloor> - 1"
    by (metis ceiling_altdef ceiling_def add_diff_cancel_right' diff_minus_eq_add minus_diff_eq
        uminus_add_conv_diff)
  have e: "even (- \<lfloor>q\<rfloor> - 1) \<longleftrightarrow> odd \<lfloor>q\<rfloor>" by simp
  show ?thesis
    unfolding rhe_def Let_def f e by (auto simp: algebra_simps)
qed

lemma ulp64_minus [simp]: "ulp64 (- x) = ulp64 x"
  by (simp add: ulp64_def)

lemma rd_minus: "rd (- x) = - rd x"
  by (simp add: rd_def rhe_minus)

lemma rd_nonneg: "0 \<le> x \<Longrightarrow> 0 \<le> rd x"
proof -
  assume "0 \<le> x"
  hence "0 \<le> x / ulp64 x" using ulp64_pos [of x] by simp
  hence "0 \<le> rhe (x / ulp64 x)" using rhe_ge_int [of 0] by simp
  thus ?thesis using ulp64_pos [of x] by (simp add: rd_def)
qed

lemma ulp64_shift: "ulp64 x = 2 ^ ulp_shift x / 2 ^ emin"
  by (simp add: ulp64_def ulp_shift_def)

lemma rd_mono_pos:
  assumes x: "0 \<le> x" and xy: "x \<le> y"
  shows "rd x \<le> rd y"
proof -
  let ?nx = "\<lfloor>\<bar>x\<bar> * 2 ^ emin\<rfloor>" and ?ny = "\<lfloor>\<bar>y\<bar> * 2 ^ emin\<rfloor>"
  have y: "0 \<le> y" using x xy by simp
  have "\<bar>x\<bar> * 2 ^ emin \<le> \<bar>y\<bar> * 2 ^ emin" using x xy by (simp add: mult_right_mono)
  hence n: "?nx \<le> ?ny" by (rule floor_mono)
  have nx0: "0 \<le> ?nx" by simp
  have "bitlen ?nx \<le> bitlen ?ny"
  proof -
    have "bitlen ?nx \<le> 0 \<or> 2 ^ (nat (bitlen ?nx) - 1) \<le> ?nx"
      using bitlen_ge_iff_power [of "bitlen ?nx" ?nx] by simp
    thus ?thesis
    proof
      assume "bitlen ?nx \<le> 0"
      thus ?thesis using bitlen_nonneg [of ?ny] by linarith
    next
      assume "2 ^ (nat (bitlen ?nx) - 1) \<le> ?nx"
      hence "2 ^ (nat (bitlen ?nx) - 1) \<le> ?ny" using n by linarith
      thus ?thesis using bitlen_ge_iff_power [of "bitlen ?nx" ?ny] by simp
    qed
  qed
  hence s: "ulp_shift x \<le> ulp_shift y" by (simp add: ulp_shift_def)
  show ?thesis
  proof (cases "ulp_shift x = ulp_shift y")
    case True
    hence u: "ulp64 x = ulp64 y" by (simp add: ulp64_shift)
    have "x / ulp64 y \<le> y / ulp64 y" using xy ulp64_pos [of y] by (simp add: divide_right_mono)
    hence "rhe (x / ulp64 y) \<le> rhe (y / ulp64 y)" by (rule rhe_mono)
    hence "real_of_int (rhe (x / ulp64 y)) * ulp64 y \<le> real_of_int (rhe (y / ulp64 y)) * ulp64 y"
      using ulp64_pos [of y] by (simp add: mult_right_mono)
    thus ?thesis by (simp add: rd_def u)
  next
    case False
    hence lt: "ulp_shift x < ulp_shift y" using s by simp
    define L where "L = nat (bitlen ?ny) - 1"
    have sy: "0 < ulp_shift y" using lt by simp
    hence by53: "bitlen ?ny = int (ulp_shift y) + 53" by (simp add: ulp_shift_def)
    hence Ly: "L = ulp_shift y + 52" by (simp add: L_def)
    have ny_pos: "0 < ?ny" using by53 bitlen_eq_zero_iff [of ?ny] by linarith
    have "2 ^ nat (bitlen ?ny - 1) \<le> ?ny" using bitlen_bounds [OF ny_pos] by simp
    moreover have "nat (bitlen ?ny - 1) = L" by (simp add: L_def nat_diff_distrib)
    ultimately have "2 ^ L \<le> ?ny" by simp
    hence "real_of_int (2 ^ L) \<le> \<bar>y\<bar> * 2 ^ emin" by (simp only: le_floor_iff)
    hence yL: "2 ^ L \<le> y * 2 ^ emin" using y by simp
    have "bitlen ?nx \<le> int (ulp_shift x) + 53" by (simp add: ulp_shift_def)
    hence "bitlen ?nx \<le> int L" using lt Ly by simp
    hence "\<not> int L + 1 \<le> bitlen ?nx" by simp
    moreover have "nat (int L + 1) - 1 = L" by simp
    ultimately have "\<not> 2 ^ L \<le> ?nx"
      using bitlen_ge_iff_power [of "int L + 1" ?nx] by simp
    hence "?nx < 2 ^ L" by simp
    hence "\<bar>x\<bar> * 2 ^ emin < real_of_int (2 ^ L)" by (simp only: floor_less_iff)
    hence xL: "x * 2 ^ emin < 2 ^ L" using x by simp
    define P :: real where "P = 2 ^ L / 2 ^ emin"
    have Py: "P \<le> rd y"
    proof -
      have "P / ulp64 y = 2 ^ L / 2 ^ ulp_shift y" by (simp add: P_def ulp64_shift)
      also have "\<dots> = 2 ^ 52" by (simp add: Ly power_add)
      finally have PU: "P / ulp64 y = real_of_int (2 ^ 52)" by simp
      have "P \<le> y" using yL by (simp add: P_def field_simps)
      hence "P / ulp64 y \<le> y / ulp64 y" using ulp64_pos [of y] by (simp add: divide_right_mono)
      hence "2 ^ 52 \<le> rhe (y / ulp64 y)" unfolding PU by (rule rhe_ge_int)
      hence "real_of_int (2 ^ 52) * ulp64 y \<le> real_of_int (rhe (y / ulp64 y)) * ulp64 y"
        using ulp64_pos [of y] by (intro mult_right_mono) simp_all
      thus ?thesis using PU ulp64_pos [of y] by (simp add: rd_def field_simps)
    qed
    have xP: "rd x \<le> P"
    proof -
      have le: "ulp_shift x \<le> L" using lt Ly by simp
      have "P / ulp64 x = 2 ^ L / 2 ^ ulp_shift x" by (simp add: P_def ulp64_shift)
      also have "\<dots> = 2 ^ (L - ulp_shift x)" using le by (simp add: power_diff)
      finally have PU: "P / ulp64 x = real_of_int (2 ^ (L - ulp_shift x))" by simp
      have "x \<le> P" using xL by (simp add: P_def field_simps)
      hence "x / ulp64 x \<le> P / ulp64 x" using ulp64_pos [of x] by (simp add: divide_right_mono)
      hence "rhe (x / ulp64 x) \<le> 2 ^ (L - ulp_shift x)" unfolding PU by (rule rhe_le_int)
      hence "real_of_int (rhe (x / ulp64 x)) * ulp64 x
             \<le> real_of_int (2 ^ (L - ulp_shift x)) * ulp64 x"
        using ulp64_pos [of x] by (intro mult_right_mono) simp_all
      thus ?thesis using PU ulp64_pos [of x] by (simp add: rd_def field_simps)
    qed
    from xP Py show ?thesis by linarith
  qed
qed

lemma rd_mono:
  assumes "x \<le> y"
  shows "rd x \<le> rd y"
proof -
  consider "0 \<le> x" | "x < 0" "0 \<le> y" | "y < 0" by linarith
  thus ?thesis
  proof cases
    case 1
    thus ?thesis using assms by (rule rd_mono_pos)
  next
    case 2
    have "0 \<le> rd (- x)" using 2 by (intro rd_nonneg) simp
    hence "rd x \<le> 0" by (simp add: rd_minus)
    moreover have "0 \<le> rd y" using 2 by (intro rd_nonneg)
    ultimately show ?thesis by linarith
  next
    case 3
    hence "rd (- y) \<le> rd (- x)" using assms by (intro rd_mono_pos) simp_all
    thus ?thesis by (simp add: rd_minus)
  qed
qed




lemma round64_0 [simp]: "round64 (Fin 0) = Fin 0"
  by (simp add: round64_def)

lemma round64_NaN [simp]: "round64 NaN = NaN"
  by (simp add: round64_def)

lemma fadd_NaN_right [simp]: "fadd x NaN = NaN" by (cases x) simp_all

lemma fmul_NaN_right [simp]: "fmul x NaN = NaN" by (cases x) simp_all

lemma fsub_NaN_left [simp]: "fsub NaN x = NaN" by (simp add: fsub_def)

lemma fsub_NaN_right [simp]: "fsub x NaN = NaN" by (cases x) (simp_all add: fsub_def)

lemma d_NaN [simp]:
  "dadd NaN x = NaN" "dadd x NaN = NaN" "dmul NaN x = NaN" "dmul x NaN = NaN"
  "dsub NaN x = NaN" "dsub x NaN = NaN"
  by (simp_all add: dadd_def dmul_def dsub_def)





lemma dadd_0 [simp]: "dadd (Fin 0) (Fin 0) = Fin 0"
  by (simp add: dadd_def)




lemma round64_in:
  assumes "lo \<le> x" "x \<le> hi" "rd lo = lo" "rd hi = hi" "- (2 ^ 1024) < lo" "hi < 2 ^ 1024"
  shows "fin_in lo hi (round64 (Fin x))"
proof -
  have "lo \<le> rd x" using rd_mono [OF assms(1)] assms(3) by simp
  moreover have "rd x \<le> hi" using rd_mono [OF assms(2)] assms(4) by simp
  ultimately have "lo \<le> rd x \<and> rd x \<le> hi \<and> \<not> 2 ^ 1024 \<le> \<bar>rd x\<bar>"
    using assms(5,6) by linarith
  thus ?thesis by (simp add: round64_def fin_in_def)
qed



lemma dadd_in:
  assumes "fin_in a b u" "fin_in c d v"
    and "lo \<le> a + c" "b + d \<le> hi" "rd lo = lo" "rd hi = hi" "- (2 ^ 1024) < lo" "hi < 2 ^ 1024"
  shows "fin_in lo hi (dadd u v)"
proof -
  from assms(1,2) obtain x y where u: "u = Fin x" "a \<le> x" "x \<le> b"
    and v: "v = Fin y" "c \<le> y" "y \<le> d" by (auto simp: fin_in_def)
  have "lo \<le> x + y" "x + y \<le> hi" using u v assms(3,4) by linarith+
  from round64_in [OF this assms(5-8)] show ?thesis by (simp add: dadd_def u v)
qed



subsection \<open>OPD at the design values\<close>













end
